theory Spec2Isabelle
  imports Complex_Main "HOL-Library.Sublist"
begin

section \<open>Capacitor live updates: the platform the library runs on\<close>

text \<open>
  The library consists of \<open>updateCapacitor\<close>, \<open>persistUpdates\<close> and the private helper
  \<open>normalize\<close> (\<open>normalize_path\<close> here, and \<open>log\<close> is \<open>log_line\<close>: both names
  are constants of HOL). Everything else it touches belongs to the platform: the Capacitor
  \<open>Filesystem\<close> and \<open>WebView\<close> plugins, \<open>JSZip\<close>, the \<open>URL\<close> class, the console.
  A promise that rejects and a \<open>throw\<close> are values of type \<open>error\<close>; an asynchronous
  function is a function from the state of the device to an outcome and the next state
  (the library awaits every call, so its calls happen one after the other).
\<close>

datatype directory = Cache | Library

text \<open>
  The calls the library makes on the Capacitor plugins, with their arguments: the flag of
  \<open>DownloadFile\<close> is \<open>progress\<close>, the flag of \<open>WriteFile\<close> and \<open>Rmdir\<close> is
  \<open>recursive\<close>.
\<close>

datatype call =
    AddListener
  | DownloadFile string string directory bool
  | ReadFile string directory
  | WriteFile string directory bool string
  | DeleteFile string directory
  | GetUri string directory
  | Readdir string directory
  | Rmdir string directory bool
  | GetServerBasePath
  | SetServerBasePath string
  | PersistServerBasePath

datatype error =
    NotNative
  | LiveReload
  | Rejected call
  | InvalidURL string
  | CorruptArchive
  | EntryUnreadable string

datatype level = Log | Warn | Err

datatype file_type = TypeFile | TypeDirectory

record FileInfo =
  fi_name :: string
  fi_type :: file_type
  fi_uri :: string

record ProgressStatus =
  ps_url :: string
  ps_bytes :: int
  ps_contentLength :: int

record ZipEntry =
  ze_name :: string
  ze_dir :: bool
  ze_base64 :: "string option"

text \<open>
  What the platform is during one run. \<open>pathname s\<close> is
  \<open>new URL(s, 'file:///').pathname\<close>, \<open>None\<close> when the constructor throws;
  \<open>rejects c\<close> says that the plugin rejects the call \<open>c\<close> (whether a call is
  rejected depends on the call alone); \<open>fetch\<close> is the content
  served at a URL (as BASE64) and \<open>progressEvents\<close> the progress events emitted while
  that URL is downloaded; \<open>uriOf\<close> is the URI the filesystem plugin gives a path of
  an area; \<open>loadAsync\<close> is JSZip's decoder (the entries of \<open>zipFile.files\<close> in
  iteration order, \<open>None\<close> for an archive it refuses), and \<open>ze_base64\<close> is what
  \<open>zipEntry.async('base64')\<close> resolves to (\<open>None\<close> when it rejects).
\<close>

record platform =
  isNativePlatform :: bool
  location_protocol :: string
  pathname :: "string \<Rightarrow> string option"
  rejects :: "call \<Rightarrow> bool"
  fetch :: "string \<Rightarrow> string"
  progressEvents :: "string \<Rightarrow> ProgressStatus list"
  uriOf :: "directory \<Rightarrow> string \<Rightarrow> string"
  loadAsync :: "string \<Rightarrow> ZipEntry list option"

text \<open>
  The state of the device: the files of the cache area, the files written to the library
  area, the children the platform lists for the updates directory, the path the web view
  serves and the persisted one, the registered progress listeners (each maps an event to
  the value it passes to its progress callback, if any), the values the progress
  callback has received, the console, and the plugin calls made so far. The listing of
  the updates directory is a component of its own: it is not derived from the files
  written, and nothing below relates a listing to earlier writes. Numbers are rationals:
  the rounding of JavaScript's doubles is left out.
\<close>

record world =
  cacheFiles :: "string \<Rightarrow> string option"
  libraryFiles :: "string \<Rightarrow> string option"
  updatesRoot :: "FileInfo list"
  serverBasePath :: string
  persistedPath :: "string option"
  listeners :: "(ProgressStatus \<Rightarrow> rat option) list"
  progressed :: "rat list"
  console :: "(level \<times> string) list"
  trace :: "call list"

type_synonym 'a outcome = "(error + 'a) \<times> world"

section \<open>normalize\<close>

text \<open>\<open>.replaceAll(/\/+/g, '/')\<close>: every run of slashes becomes one slash.\<close>

fun collapse_slashes :: "string \<Rightarrow> string" where
  "collapse_slashes (c # d # cs) =
     (if c = CHR ''/'' \<and> d = CHR ''/'' then collapse_slashes (d # cs)
      else c # collapse_slashes (d # cs))"
| "collapse_slashes cs = cs"

text \<open>\<open>.replace(/\/+$/, '')\<close>: the slashes at the end are removed.\<close>

definition strip_trailing_slashes :: "string \<Rightarrow> string" where
  "strip_trailing_slashes s = rev (dropWhile (\<lambda>c. c = CHR ''/'') (rev s))"

definition normalize_path :: "(string \<Rightarrow> string option) \<Rightarrow> string \<Rightarrow> string option" where
  "normalize_path url_pathname uriOrPath =
     (case url_pathname uriOrPath of
        None \<Rightarrow> None
      | Some p \<Rightarrow> Some (strip_trailing_slashes (collapse_slashes p)))"

fun has_double_slash :: "string \<Rightarrow> bool" where
  "has_double_slash (c # d # cs) =
     ((c = CHR ''/'' \<and> d = CHR ''/'') \<or> has_double_slash (d # cs))"
| "has_double_slash cs = False"

definition ends_with_slash :: "string \<Rightarrow> bool" where
  "ends_with_slash s = (case rev s of [] \<Rightarrow> False | c # _ \<Rightarrow> c = CHR ''/'')"

subsection \<open>A model of the URL parser on plain file URIs and paths\<close>

text \<open>
  The \<open>URL\<close> class is the platform's. \<open>url_pathname\<close> follows the URL standard's
  parser, with base \<open>file:///\<close>, on the strings made of ASCII letters, digits,
  \<open>-\<close>, \<open>_\<close>, \<open>/\<close> and \<open>:\<close>: such characters are never percent-encoded and form no dot
  segment. A string with no scheme is resolved against the base; after the scheme
  \<open>file\<close>, two slashes open the host, which must be empty here; another scheme that is
  not special has an opaque path when no slash follows the colon. Elsewhere the model
  gives \<open>None\<close>; it is evaluated below only where it follows the standard.
\<close>

definition is_alpha :: "char \<Rightarrow> bool" where
  "is_alpha c = (c \<in> set ''abcdefghijklmnopqrstuvwxyzABCDEFGHIJKLMNOPQRSTUVWXYZ'')"

definition is_digit :: "char \<Rightarrow> bool" where
  "is_digit c = (c \<in> set ''0123456789'')"

definition plain_char :: "char \<Rightarrow> bool" where
  "plain_char c = (is_alpha c \<or> is_digit c \<or> c \<in> set ''-_/:'')"

definition scheme_split :: "string \<Rightarrow> (string \<times> string) option" where
  "scheme_split s =
     (case s of
        [] \<Rightarrow> None
      | c # cs \<Rightarrow>
          if \<not> is_alpha c then None
          else (let scheme = takeWhile (\<lambda>x. is_alpha x \<or> is_digit x \<or> x = CHR ''-'') s;
                    rest = dropWhile (\<lambda>x. is_alpha x \<or> is_digit x \<or> x = CHR ''-'') s
                in case rest of
                     [] \<Rightarrow> None
                   | r # rs \<Rightarrow> if r = CHR '':'' then Some (scheme, rs) else None))"

definition file_pathname :: "string \<Rightarrow> string option" where
  "file_pathname r =
     (case r of
        [] \<Rightarrow> Some ''/''
      | c # cs \<Rightarrow>
          if c \<noteq> CHR ''/'' then Some (CHR ''/'' # r)
          else (case cs of
                  [] \<Rightarrow> Some r
                | d # ds \<Rightarrow>
                    if d \<noteq> CHR ''/'' then Some r
                    else (case ds of
                            [] \<Rightarrow> Some ''/''
                          | e # es \<Rightarrow> if e = CHR ''/'' then Some ds else None)))"

definition to_lower :: "char \<Rightarrow> char" where
  "to_lower c =
     (case map_of (zip ''ABCDEFGHIJKLMNOPQRSTUVWXYZ'' ''abcdefghijklmnopqrstuvwxyz'') c of
        None \<Rightarrow> c
      | Some l \<Rightarrow> l)"

definition url_pathname :: "string \<Rightarrow> string option" where
  "url_pathname s =
     (if \<not> list_all plain_char s then None
      else case scheme_split s of
             None \<Rightarrow> file_pathname s
           | Some (scheme, rest) \<Rightarrow>
               if map to_lower scheme = ''file'' then file_pathname rest
               else if map to_lower scheme \<in> set [''http'', ''https'', ''ws'', ''wss'', ''ftp'']
               then None
               else (case rest of
                       [] \<Rightarrow> Some []
                     | c # cs \<Rightarrow> if c = CHR ''/'' then None else Some rest))"

section \<open>The plugins\<close>

text \<open>
  Each plugin call is recorded in \<open>trace\<close>, rejected or not. A call that is not
  rejected has the effect the plugin documents; a rejected one has none.
\<close>

definition issue :: "call \<Rightarrow> world \<Rightarrow> world" where
  "issue c w = w\<lparr>trace := trace w @ [c]\<rparr>"

definition console_write :: "level \<Rightarrow> string \<Rightarrow> world \<Rightarrow> world" where
  "console_write l msg w = w\<lparr>console := console w @ [(l, msg)]\<rparr>"

definition addListener ::
  "platform \<Rightarrow> (ProgressStatus \<Rightarrow> rat option) \<Rightarrow> world \<Rightarrow> unit outcome" where
  "addListener pf handler w =
     (if rejects pf AddListener then (Inl (Rejected AddListener), issue AddListener w)
      else (Inr (), (issue AddListener w)\<lparr>listeners := listeners w @ [handler]\<rparr>))"

text \<open>
  While a download runs the plugin emits its progress events, and every registered
  listener sees each of them, before the download settles.
\<close>

definition dispatch :: "ProgressStatus list \<Rightarrow> world \<Rightarrow> world" where
  "dispatch events w =
     w\<lparr>progressed := progressed w @
          concat (map (\<lambda>event. List.map_filter (\<lambda>handler. handler event) (listeners w)) events)\<rparr>"

definition downloadFile ::
  "platform \<Rightarrow> string \<Rightarrow> string \<Rightarrow> directory \<Rightarrow> bool \<Rightarrow> world \<Rightarrow> unit outcome" where
  "downloadFile pf url path dir progress w =
     (let c = DownloadFile url path dir progress;
          w1 = (if progress then dispatch (progressEvents pf url) (issue c w) else issue c w)
      in if rejects pf c then (Inl (Rejected c), w1)
         else (Inr (),
               case dir of
                 Cache \<Rightarrow> w1\<lparr>cacheFiles := (cacheFiles w1)(path \<mapsto> fetch pf url)\<rparr>
               | Library \<Rightarrow> w1\<lparr>libraryFiles := (libraryFiles w1)(path \<mapsto> fetch pf url)\<rparr>))"

definition readFile :: "platform \<Rightarrow> string \<Rightarrow> directory \<Rightarrow> world \<Rightarrow> string outcome" where
  "readFile pf path dir w =
     (if rejects pf (ReadFile path dir) then (Inl (Rejected (ReadFile path dir)), issue (ReadFile path dir) w)
      else case (case dir of Cache \<Rightarrow> cacheFiles w path | Library \<Rightarrow> libraryFiles w path) of
             None \<Rightarrow> (Inl (Rejected (ReadFile path dir)), issue (ReadFile path dir) w)
           | Some data \<Rightarrow> (Inr data, issue (ReadFile path dir) w))"

definition writeFile ::
  "platform \<Rightarrow> string \<Rightarrow> directory \<Rightarrow> bool \<Rightarrow> string \<Rightarrow> world \<Rightarrow> unit outcome" where
  "writeFile pf path dir recursive data w =
     (let c = WriteFile path dir recursive data; w1 = issue c w
      in if rejects pf c then (Inl (Rejected c), w1)
         else (Inr (),
               case dir of
                 Cache \<Rightarrow> w1\<lparr>cacheFiles := (cacheFiles w1)(path \<mapsto> data)\<rparr>
               | Library \<Rightarrow> w1\<lparr>libraryFiles := (libraryFiles w1)(path \<mapsto> data)\<rparr>))"

definition deleteFile :: "platform \<Rightarrow> string \<Rightarrow> directory \<Rightarrow> world \<Rightarrow> unit outcome" where
  "deleteFile pf path dir w =
     (let w1 = issue (DeleteFile path dir) w
      in if rejects pf (DeleteFile path dir) then (Inl (Rejected (DeleteFile path dir)), w1)
         else (Inr (),
               case dir of
                 Cache \<Rightarrow> w1\<lparr>cacheFiles := (cacheFiles w1)(path := None)\<rparr>
               | Library \<Rightarrow> w1\<lparr>libraryFiles := (libraryFiles w1)(path := None)\<rparr>))"

definition getUri :: "platform \<Rightarrow> string \<Rightarrow> directory \<Rightarrow> world \<Rightarrow> string outcome" where
  "getUri pf path dir w =
     (if rejects pf (GetUri path dir) then (Inl (Rejected (GetUri path dir)), issue (GetUri path dir) w)
      else (Inr (uriOf pf dir path), issue (GetUri path dir) w))"

text \<open>
  The library lists and empties one directory only, the updates directory of the library
  area: \<open>updatesRoot\<close> holds its children, and a recursive \<open>rmdir\<close> of
  \<open>UPDATES_DIRECTORY/name\<close> removes the child called \<open>name\<close>.
\<close>

definition UPDATES_DIRECTORY :: string where
  "UPDATES_DIRECTORY = ''NoCloud/ionic_built_snapshots''"

definition readdir :: "platform \<Rightarrow> string \<Rightarrow> directory \<Rightarrow> world \<Rightarrow> (FileInfo list) outcome" where
  "readdir pf path dir w =
     (if rejects pf (Readdir path dir) \<or> path \<noteq> UPDATES_DIRECTORY \<or> dir \<noteq> Library
      then (Inl (Rejected (Readdir path dir)), issue (Readdir path dir) w)
      else (Inr (updatesRoot w), issue (Readdir path dir) w))"

definition rmdir :: "platform \<Rightarrow> string \<Rightarrow> directory \<Rightarrow> bool \<Rightarrow> world \<Rightarrow> unit outcome" where
  "rmdir pf path dir recursive w =
     (let c = Rmdir path dir recursive
      in if rejects pf c \<or> dir \<noteq> Library then (Inl (Rejected c), issue c w)
         else (Inr (),
               (issue c w)
                 \<lparr>updatesRoot :=
                    filter (\<lambda>f. UPDATES_DIRECTORY @ ''/'' @ fi_name f \<noteq> path) (updatesRoot w)\<rparr>))"

definition getServerBasePath :: "platform \<Rightarrow> world \<Rightarrow> string outcome" where
  "getServerBasePath pf w =
     (if rejects pf GetServerBasePath then (Inl (Rejected GetServerBasePath), issue GetServerBasePath w)
      else (Inr (serverBasePath w), issue GetServerBasePath w))"

definition setServerBasePath :: "platform \<Rightarrow> string \<Rightarrow> world \<Rightarrow> unit outcome" where
  "setServerBasePath pf path w =
     (if rejects pf (SetServerBasePath path)
      then (Inl (Rejected (SetServerBasePath path)), issue (SetServerBasePath path) w)
      else (Inr (), (issue (SetServerBasePath path) w)\<lparr>serverBasePath := path\<rparr>))"

definition persistServerBasePath :: "platform \<Rightarrow> world \<Rightarrow> unit outcome" where
  "persistServerBasePath pf w =
     (if rejects pf PersistServerBasePath
      then (Inl (Rejected PersistServerBasePath), issue PersistServerBasePath w)
      else (Inr (), (issue PersistServerBasePath w)\<lparr>persistedPath := Some (serverBasePath w)\<rparr>))"

section \<open>updateCapacitor\<close>

text \<open>
  The arguments after the URL: \<open>progressOrVerbose\<close> is absent, a boolean or a function,
  \<open>maybeVerbose\<close> is absent or a boolean. The caller's progress function is observed
  through the values it receives (\<open>progressed\<close>); it is assumed not to throw.
\<close>

datatype arg = Undefined | Boolean bool | Function

definition progress_given :: "arg \<Rightarrow> bool" where
  "progress_given progressOrVerbose = (progressOrVerbose = Function)"

definition verbose_of :: "arg \<Rightarrow> bool option \<Rightarrow> bool" where
  "verbose_of progressOrVerbose maybeVerbose =
     (case progressOrVerbose of Boolean b \<Rightarrow> b | _ \<Rightarrow> maybeVerbose = Some True)"

definition report :: "bool \<Rightarrow> rat \<Rightarrow> world \<Rightarrow> world" where
  "report has_progress v w = (if has_progress then w\<lparr>progressed := progressed w @ [v]\<rparr> else w)"

definition log_line :: "bool \<Rightarrow> string \<Rightarrow> world \<Rightarrow> world" where
  "log_line verbose msg w = (if verbose then console_write Log msg w else w)"

text \<open>
  The progress listener: the value it hands to \<open>progress\<close>, \<open>None\<close> when it returns
  without calling it. \<open>event.contentLength || event.bytes\<close> is the content length
  unless that is zero.
\<close>

definition listener :: "string \<Rightarrow> bool \<Rightarrow> ProgressStatus \<Rightarrow> rat option" where
  "listener url has_progress event =
     (if ps_url event \<noteq> url then None
      else if \<not> has_progress then None
      else if ps_bytes event = 0 then Some 0
      else Some (of_int (if ps_contentLength event \<noteq> 0 then ps_contentLength event
                         else ps_bytes event)
                 / of_int (ps_bytes event) / 2))"

text \<open>The loop over \<open>Object.values(zipFile.files)\<close>.\<close>

fun extract_entries ::
  "platform \<Rightarrow> bool \<Rightarrow> bool \<Rightarrow> string \<Rightarrow> nat \<Rightarrow> nat \<Rightarrow> ZipEntry list \<Rightarrow> world \<Rightarrow> unit outcome" where
  \<open>extract_entries pf has_progress verbose uuid entriesCount entryIndex [] w = (Inr (), w)\<close>
| \<open>extract_entries pf has_progress verbose uuid entriesCount entryIndex (zipEntry # rest) w =
     (let w1 = report has_progress (of_nat entryIndex / of_nat entriesCount / 2 + 1 / 2) w
      in if ze_dir zipEntry
         then extract_entries pf has_progress verbose uuid entriesCount (entryIndex + 1) rest w1
         else case ze_base64 zipEntry of
                None \<Rightarrow> (Inl (EntryUnreadable (ze_name zipEntry)), w1)
              | Some data \<Rightarrow>
                  (case writeFile pf (UPDATES_DIRECTORY @ ''/'' @ uuid @ ''/'' @ ze_name zipEntry)
                          Library True data
                          (log_line verbose (''Writing ZIP entry "'' @ ze_name zipEntry @ ''"'') w1) of
                     (Inl e, w2) \<Rightarrow> (Inl e, w2)
                   | (Inr _, w2) \<Rightarrow>
                       extract_entries pf has_progress verbose uuid entriesCount (entryIndex + 1) rest w2))\<close>

text \<open>The function \<open>updateCapacitor\<close> returns: it sets the served base path.\<close>

definition activate :: "platform \<Rightarrow> bool \<Rightarrow> string \<Rightarrow> world \<Rightarrow> unit outcome" where
  \<open>activate pf verbose path w =
     setServerBasePath pf path (log_line verbose (''Setting capacitor base path to "'' @ path @ ''"'') w)\<close>

text \<open>The \<open>try\<close> block.\<close>

definition update_body ::
  "platform \<Rightarrow> string \<Rightarrow> bool \<Rightarrow> bool \<Rightarrow> string \<Rightarrow> world \<Rightarrow> (world \<Rightarrow> unit outcome) outcome" where
  \<open>update_body pf url has_progress verbose uuid w =
     (let zipFileName = ''update-'' @ uuid @ ''.zip'' in
      case addListener pf (listener url has_progress) w of
        (Inl e, w1) \<Rightarrow> (Inl e, w1)
      | (Inr _, w1) \<Rightarrow>
      (case downloadFile pf url zipFileName Cache True
              (log_line verbose (''Downloading update from "'' @ url @ ''" as "'' @ zipFileName @ ''"'') w1) of
        (Inl e, w2) \<Rightarrow> (Inl e, w2)
      | (Inr _, w2) \<Rightarrow>
      (case readFile pf zipFileName Cache
              (log_line verbose (''Reading downloaded ZIP file "'' @ zipFileName @ ''"'') w2) of
        (Inl e, w3) \<Rightarrow> (Inl e, w3)
      | (Inr data, w3) \<Rightarrow>
      (let w4 = log_line verbose (''Reading ZIP file contents from "'' @ zipFileName @ ''"'') w3 in
       case loadAsync pf data of
        None \<Rightarrow> (Inl CorruptArchive, w4)
      | Some files \<Rightarrow>
      (case extract_entries pf has_progress verbose uuid (length files) 0 files w4 of
        (Inl e, w5) \<Rightarrow> (Inl e, w5)
      | (Inr _, w5) \<Rightarrow>
      (case getUri pf (UPDATES_DIRECTORY @ ''/'' @ uuid) Library w5 of
        (Inl e, w6) \<Rightarrow> (Inl e, w6)
      | (Inr uri, w6) \<Rightarrow>
      (case normalize_path (pathname pf) uri of
        None \<Rightarrow> (Inl (InvalidURL uri), w6)
      | Some path \<Rightarrow>
          (Inr (activate pf verbose path),
           report has_progress 1 (log_line verbose (''Update extracted to "'' @ path @ ''"'') w6)))))))))\<close>

text \<open>
  \<open>try { ... } finally { ... }\<close>: the cleanup runs on the state the block left,
  whatever its outcome; when the cleanup throws, its error is the outcome.
\<close>

definition try_finally ::
  "'a outcome \<Rightarrow> (world \<Rightarrow> unit outcome) \<Rightarrow> 'a outcome" where
  "try_finally tried cleanup =
     (case cleanup (snd tried) of
        (Inl e, w') \<Rightarrow> (Inl e, w')
      | (Inr _, w') \<Rightarrow> (fst tried, w'))"

text \<open>\<open>uuid\<close> is what \<open>crypto.randomUUID()\<close> returns in this call.\<close>

definition updateCapacitor ::
  "platform \<Rightarrow> string \<Rightarrow> arg \<Rightarrow> bool option \<Rightarrow> string \<Rightarrow> world \<Rightarrow> (world \<Rightarrow> unit outcome) outcome" where
  \<open>updateCapacitor pf url progressOrVerbose maybeVerbose uuid w =
     (let has_progress = progress_given progressOrVerbose;
          verbose = verbose_of progressOrVerbose maybeVerbose
      in if \<not> isNativePlatform pf then (Inl NotNative, w)
         else if location_protocol pf \<noteq> ''capacitor:'' then (Inl LiveReload, w)
         else let zipFileName = ''update-'' @ uuid @ ''.zip''
              in try_finally (update_body pf url has_progress verbose uuid w)
                   (\<lambda>w'. deleteFile pf zipFileName Cache
                           (log_line verbose (''Deleting ZIP file "'' @ zipFileName @ ''"'') w')))\<close>

section \<open>persistUpdates\<close>

text \<open>The loop that deletes the old updates.\<close>

fun delete_old :: "platform \<Rightarrow> string \<Rightarrow> FileInfo list \<Rightarrow> world \<Rightarrow> unit outcome" where
  \<open>delete_old pf path [] w = (Inr (), w)\<close>
| \<open>delete_old pf path (file # files) w =
     (if fi_type file \<noteq> TypeDirectory then delete_old pf path files w
      else case normalize_path (pathname pf) path of
             None \<Rightarrow> (Inl (InvalidURL path), w)
           | Some p \<Rightarrow>
               (case normalize_path (pathname pf) (fi_uri file) of
                  None \<Rightarrow> (Inl (InvalidURL (fi_uri file)), w)
                | Some u \<Rightarrow>
                    if p = u then delete_old pf path files w
                    else (case rmdir pf (UPDATES_DIRECTORY @ ''/'' @ fi_name file) Library True
                                 (console_write Log
                                    (''Deleting old update directory "'' @ fi_name file @ ''"'') w) of
                            (Inl e, w1) \<Rightarrow> (Inl e, w1)
                          | (Inr _, w1) \<Rightarrow> delete_old pf path files w1)))\<close>

definition persistUpdates :: "platform \<Rightarrow> world \<Rightarrow> bool outcome" where
  \<open>persistUpdates pf w =
     (if \<not> isNativePlatform pf
      then (Inr False, console_write Warn ''Update is only supported on native platforms'' w)
      else if location_protocol pf \<noteq> ''capacitor:''
      then (Inr False, console_write Warn ''Update is not supported in Capacitor LiveReload'' w)
      else
      case getUri pf UPDATES_DIRECTORY Library w of
        (Inl e, w1) \<Rightarrow> (Inl e, w1)
      | (Inr uri, w1) \<Rightarrow>
      (case normalize_path (pathname pf) uri of
        None \<Rightarrow> (Inl (InvalidURL uri), w1)
      | Some serverBasePathPrefix \<Rightarrow>
      (case getServerBasePath pf w1 of
        (Inl e, w2) \<Rightarrow> (Inl e, w2)
      | (Inr path, w2) \<Rightarrow>
      (let (files, w3) =
             (case readdir pf UPDATES_DIRECTORY Library w2 of
                (Inl e, w') \<Rightarrow>
                  ([], console_write Err
                         (''Failed to read updates directory "'' @ UPDATES_DIRECTORY @ ''"'') w')
              | (Inr result, w') \<Rightarrow> (result, w'))
       in case delete_old pf path files w3 of
        (Inl e, w4) \<Rightarrow> (Inl e, w4)
      | (Inr _, w4) \<Rightarrow>
          if prefix serverBasePathPrefix path
          then (case persistServerBasePath pf
                       (console_write Log (''Persisting Capacitor updates from "'' @ path @ ''"'') w4) of
                  (Inl e, w5) \<Rightarrow> (Inl e, w5)
                | (Inr _, w5) \<Rightarrow> (Inr True, w5))
          else (Inr False,
                console_write Warn (''Cannot persist updates directory "'' @ path @ ''"'') w4)))))\<close>

section \<open>Observations on a run\<close>

text \<open>The files a run asked the filesystem plugin to write, in order.\<close>

fun written :: "call list \<Rightarrow> (string \<times> directory \<times> bool \<times> string) list" where
  "written [] = []"
| "written (WriteFile path dir recursive data # cs) = (path, dir, recursive, data) # written cs"
| "written (c # cs) = written cs"

text \<open>
  The write a file entry of the archive calls for, and a write that was asked, in the
  same form (the data an entry decodes to may be missing).
\<close>

definition entry_write ::
  "string \<Rightarrow> ZipEntry \<Rightarrow> string \<times> directory \<times> bool \<times> string option" where
  "entry_write uuid e =
     (UPDATES_DIRECTORY @ ''/'' @ uuid @ ''/'' @ ze_name e, Library, True, ze_base64 e)"

definition asked ::
  "string \<times> directory \<times> bool \<times> string \<Rightarrow> string \<times> directory \<times> bool \<times> string option" where
  "asked x = (case x of (path, dir, recursive, data) \<Rightarrow> (path, dir, recursive, Some data))"

text \<open>
  A child of the updates directory is the served update when its URI and the served base
  path normalize to the same string; the loop of \<open>persistUpdates\<close> removes the other
  child directories.
\<close>

definition served_update :: "platform \<Rightarrow> string \<Rightarrow> FileInfo \<Rightarrow> bool" where
  "served_update pf path f =
     (normalize_path (pathname pf) path \<noteq> None \<and>
      normalize_path (pathname pf) path = normalize_path (pathname pf) (fi_uri f))"

definition old_update :: "platform \<Rightarrow> string \<Rightarrow> FileInfo \<Rightarrow> bool" where
  "old_update pf path f = (fi_type f = TypeDirectory \<and> \<not> served_update pf path f)"

definition durable_persists :: "call list \<Rightarrow> nat" where
  "durable_persists cs = length (filter (\<lambda>c. c = PersistServerBasePath) cs)"

section \<open>A device to run the library on\<close>

text \<open>
  A native device serving the packaged bundle, on which no plugin call is rejected. The
  archive served has two files and a directory entry; the download emits two progress
  events. The updates directory holds two staged updates, \<open>AAA\<close> and \<open>BBB\<close>, and
  the web view serves \<open>AAA\<close>.
\<close>

definition archive :: "ZipEntry list" where
  "archive =
     [\<lparr>ze_name = ''index.html'', ze_dir = False, ze_base64 = Some ''PGh0bWw+''\<rparr>,
      \<lparr>ze_name = ''assets/'', ze_dir = True, ze_base64 = Some []\<rparr>,
      \<lparr>ze_name = ''assets/app.js'', ze_dir = False, ze_base64 = Some ''YXBw''\<rparr>]"

definition device :: platform where
  "device =
     \<lparr>isNativePlatform = True,
      location_protocol = ''capacitor:'',
      pathname = url_pathname,
      rejects = (\<lambda>c. False),
      fetch = (\<lambda>url. ''UEsDBA''),
      progressEvents = (\<lambda>url. [\<lparr>ps_url = url, ps_bytes = 10, ps_contentLength = 100\<rparr>,
                               \<lparr>ps_url = url, ps_bytes = 100, ps_contentLength = 100\<rparr>]),
      uriOf = (\<lambda>dir path. (case dir of Cache \<Rightarrow> ''file:///var/Caches/''
                                        | Library \<Rightarrow> ''file:///var/Library/'') @ path),
      loadAsync = (\<lambda>data. if data = ''UEsDBA'' then Some archive else None)\<rparr>"

definition staged :: "string \<Rightarrow> FileInfo" where
  "staged n =
     \<lparr>fi_name = n, fi_type = TypeDirectory,
      fi_uri = ''file:///var/Library/NoCloud/ionic_built_snapshots/'' @ n\<rparr>"

definition at_rest :: world where
  "at_rest =
     \<lparr>cacheFiles = Map.empty,
      libraryFiles = Map.empty,
      updatesRoot = [staged ''AAA'', staged ''BBB''],
      serverBasePath = ''/var/Library/NoCloud/ionic_built_snapshots/AAA'',
      persistedPath = None,
      listeners = [],
      progressed = [],
      console = [],
      trace = []\<rparr>"

text \<open>The same device when the download and the deletion of the archive are rejected.\<close>

definition failing_download :: platform where
  "failing_download =
     device\<lparr>rejects := (\<lambda>c. c = DownloadFile ''https://x/u'' ''update-u1.zip'' Cache True \<or>
                             c = DeleteFile ''update-u1.zip'' Cache)\<rparr>"

text \<open>
  The same device under live reload, and when exactly one plugin call is rejected; and the
  state in which the served base path names \<open>AAA\<close> with a doubled slash.
\<close>

definition live_reload :: platform where
  "live_reload = device\<lparr>location_protocol := ''http:''\<rparr>"

definition rejecting :: "call \<Rightarrow> platform" where
  "rejecting c = device\<lparr>rejects := (\<lambda>x. x = c)\<rparr>"

definition served_unnormalized :: world where
  "served_unnormalized =
     at_rest\<lparr>serverBasePath := ''/var/Library//NoCloud/ionic_built_snapshots/AAA''\<rparr>"

section \<open>Properties of normalize\<close>

lemmas url_eval = normalize_path_def url_pathname_def plain_char_def is_alpha_def is_digit_def
  scheme_split_def file_pathname_def to_lower_def strip_trailing_slashes_def ends_with_slash_def

lemma collapse_slashes_hd: "\<exists>r. collapse_slashes (c # cs) = c # r"
  by (induction cs arbitrary: c) auto

lemma collapse_no_double: "\<not> has_double_slash (collapse_slashes s)"
proof (induction s rule: collapse_slashes.induct)
  case (1 c d cs)
  obtain r where r: "collapse_slashes (d # cs) = d # r"
    using collapse_slashes_hd by blast
  with 1 show ?case by auto
qed simp_all

lemma has_double_slash_append: "has_double_slash xs \<Longrightarrow> has_double_slash (xs @ ys)"
  by (induction xs rule: has_double_slash.induct) auto

lemma strip_trailing_decomp: "\<exists>k. s = strip_trailing_slashes s @ replicate k (CHR ''/'')"
proof -
  have "rev s = takeWhile (\<lambda>c. c = CHR ''/'') (rev s) @ dropWhile (\<lambda>c. c = CHR ''/'') (rev s)"
    by simp
  moreover have "takeWhile (\<lambda>c. c = CHR ''/'') (rev s)
      = replicate (length (takeWhile (\<lambda>c. c = CHR ''/'') (rev s))) (CHR ''/'')"
    by (rule replicate_length_same [symmetric]) (auto dest: set_takeWhileD)
  ultimately have "rev s = replicate (length (takeWhile (\<lambda>c. c = CHR ''/'') (rev s))) (CHR ''/'')
      @ dropWhile (\<lambda>c. c = CHR ''/'') (rev s)"
    by simp
  then have "s = rev (dropWhile (\<lambda>c. c = CHR ''/'') (rev s))
      @ replicate (length (takeWhile (\<lambda>c. c = CHR ''/'') (rev s))) (CHR ''/'')"
    by (metis rev_append rev_replicate rev_rev_ident)
  then show ?thesis unfolding strip_trailing_slashes_def by blast
qed

lemma strip_no_double: "\<not> has_double_slash s \<Longrightarrow> \<not> has_double_slash (strip_trailing_slashes s)"
  using has_double_slash_append strip_trailing_decomp by metis

lemma strip_no_trailing: "\<not> ends_with_slash (strip_trailing_slashes s)"
proof -
  have "rev (strip_trailing_slashes s) = dropWhile (\<lambda>c. c = CHR ''/'') (rev s)"
    by (simp add: strip_trailing_slashes_def)
  moreover have "c \<noteq> CHR ''/''" if "dropWhile (\<lambda>c. c = CHR ''/'') (rev s) = c # cs" for c cs
    using that hd_dropWhile [of "\<lambda>c. c = CHR ''/''" "rev s"] by fastforce
  ultimately show ?thesis
    unfolding ends_with_slash_def by (cases "dropWhile (\<lambda>c. c = CHR ''/'') (rev s)") simp_all
qed

lemma collapse_fixed: "\<not> has_double_slash t \<Longrightarrow> collapse_slashes t = t"
  by (induction t rule: collapse_slashes.induct) auto

lemma strip_fixed: "\<not> ends_with_slash t \<Longrightarrow> strip_trailing_slashes t = t"
  by (cases "rev t") (auto simp: ends_with_slash_def strip_trailing_slashes_def)

text \<open>
  C9 (amended). Whenever \<open>normalize\<close> returns, its result has no doubled slash and
  no slash at the end; and it is a fixed point of \<open>normalize\<close> as soon as the URL
  parser gives the result back as its own pathname (the root for the empty result), as
  it does for the absolute paths that file URIs resolve to.
\<close>

theorem normalize_slashes_and_fixpoint:
  assumes "normalize_path pn s = Some t"
  shows "\<not> has_double_slash t \<and> \<not> ends_with_slash t \<and>
         (pn t = Some (if t = [] then ''/'' else t) \<longrightarrow> normalize_path pn t = Some t)"
proof -
  from assms obtain p where p: "pn s = Some p" and t: "t = strip_trailing_slashes (collapse_slashes p)"
    by (auto simp: normalize_path_def split: option.splits)
  have d: "\<not> has_double_slash t" unfolding t by (rule strip_no_double) (rule collapse_no_double)
  have e: "\<not> ends_with_slash t" unfolding t by (rule strip_no_trailing)
  have f: "normalize_path pn t = Some t" if "pn t = Some (if t = [] then ''/'' else t)"
  proof (cases "t = []")
    case True
    with that show ?thesis by (simp add: normalize_path_def strip_trailing_slashes_def)
  next
    case False
    with that d e show ?thesis by (simp add: normalize_path_def collapse_fixed strip_fixed)
  qed
  from d e f show ?thesis by blast
qed

theorem normalize_slashes_and_fixpoint_witness:
  "normalize_path url_pathname ''file:///var//Library/'' = Some ''/var/Library'' \<and>
   \<not> has_double_slash ''/var/Library'' \<and> \<not> ends_with_slash ''/var/Library'' \<and>
   url_pathname ''/var/Library'' = Some ''/var/Library'' \<and>
   normalize_path url_pathname ''/var/Library'' = Some ''/var/Library''"
proof -
  have h: "normalize_path url_pathname ''file:///var//Library/'' = Some ''/var/Library''"
    by (simp add: url_eval)
  have u: "url_pathname ''/var/Library'' = Some ''/var/Library''"
    by (simp add: url_eval)
  show ?thesis using h u normalize_slashes_and_fixpoint [OF h] by simp
qed

text \<open>
  \<open>normalize\<close> is not idempotent on every string: \<open>a:b\<close> is a URL with the opaque
  path \<open>b\<close>, and \<open>b\<close> alone is a path relative to \<open>file:///\<close>.
\<close>

theorem normalize_not_idempotent:
  "normalize_path url_pathname ''a:b'' = Some ''b'' \<and> normalize_path url_pathname ''b'' = Some ''/b''"
  by (simp add: url_eval)

subsection \<open>File URIs and paths\<close>

text \<open>
  On the strings \<open>url_pathname\<close> models, a file URI or a path (a string with no scheme,
  or with the scheme \<open>file\<close>) normalizes to a fixed point of \<open>normalize\<close>.
\<close>

lemma normalize_fixpoint:
  assumes "\<not> has_double_slash t" and "\<not> ends_with_slash t"
    and "pn t = Some (if t = [] then ''/'' else t)"
  shows "normalize_path pn t = Some t"
proof (cases "t = []")
  case True
  with assms(3) show ?thesis by (simp add: normalize_path_def strip_trailing_slashes_def)
next
  case False
  with assms show ?thesis by (simp add: normalize_path_def collapse_fixed strip_fixed)
qed

lemma collapse_slashes_all: "list_all P s \<Longrightarrow> list_all P (collapse_slashes s)"
  by (induction s rule: collapse_slashes.induct) auto

lemma strip_trailing_all: "list_all P s \<Longrightarrow> list_all P (strip_trailing_slashes s)"
proof -
  assume "list_all P s"
  then have "\<forall>c\<in>set (rev s). P c" by (simp add: list_all_iff)
  then have "\<forall>c\<in>set (dropWhile (\<lambda>c. c = CHR ''/'') (rev s)). P c"
    by (meson set_dropWhileD)
  then show ?thesis by (simp add: strip_trailing_slashes_def list_all_iff)
qed

lemma strip_trailing_hd:
  "strip_trailing_slashes (c # cs) = [] \<or> (\<exists>r. strip_trailing_slashes (c # cs) = c # r)"
proof -
  obtain k where k: "c # cs = strip_trailing_slashes (c # cs) @ replicate k (CHR ''/'')"
    using strip_trailing_decomp by blast
  show ?thesis
  proof (cases "strip_trailing_slashes (c # cs)")
    case Nil
    then show ?thesis by simp
  next
    case (Cons a as)
    with k show ?thesis by simp
  qed
qed

lemma plain_slash: "plain_char (CHR ''/'')"
  by (simp add: plain_char_def)

lemma file_pathname_shape:
  assumes "file_pathname r = Some p" and "list_all plain_char r"
  shows "(\<exists>q. p = CHR ''/'' # q) \<and> list_all plain_char p"
  using assms
  by (auto simp: file_pathname_def plain_slash split: list.splits if_splits)

lemma url_pathname_of_normalized:
  assumes "list_all plain_char t" and "\<not> has_double_slash t" and "\<not> ends_with_slash t"
    and "t = [] \<or> (\<exists>q. t = CHR ''/'' # q)"
  shows "url_pathname t = Some (if t = [] then ''/'' else t)"
proof (cases t)
  case Nil
  then show ?thesis by (simp add: url_pathname_def scheme_split_def file_pathname_def)
next
  case (Cons c q)
  with assms(4) have c: "c = CHR ''/''" by simp
  have s: "scheme_split t = None"
    unfolding Cons c by (simp add: scheme_split_def is_alpha_def)
  show ?thesis
  proof (cases q)
    case Nil
    with Cons c assms(3) show ?thesis by (simp add: ends_with_slash_def)
  next
    case q: (Cons d ds)
    with Cons c assms(2) have "d \<noteq> CHR ''/''" by auto
    with Cons c q s assms(1) show ?thesis
      by (simp add: url_pathname_def file_pathname_def)
  qed
qed

lemma scheme_split_rest_plain:
  "scheme_split s = Some (scheme, rest) \<Longrightarrow> list_all plain_char s \<Longrightarrow> list_all plain_char rest"
proof -
  assume a: "scheme_split s = Some (scheme, rest)" and p: "list_all plain_char s"
  let ?P = "\<lambda>x. is_alpha x \<or> is_digit x \<or> x = CHR ''-''"
  from a have "dropWhile ?P s = CHR '':'' # rest"
    by (auto simp: scheme_split_def Let_def split: list.splits if_splits)
  then have "set rest \<subseteq> set (dropWhile ?P s)" by auto
  also have "\<dots> \<subseteq> set s" by (meson set_dropWhileD subsetI)
  finally show ?thesis using p by (auto simp: list_all_iff)
qed

lemma normalize_file_uri_idempotent:
  assumes "normalize_path url_pathname s = Some t"
    and "scheme_split s = None \<or>
         (\<exists>scheme rest. scheme_split s = Some (scheme, rest) \<and> map to_lower scheme = ''file'')"
  shows "normalize_path url_pathname t = Some t"
proof -
  from assms(1) obtain p where p: "url_pathname s = Some p"
    and t: "t = strip_trailing_slashes (collapse_slashes p)"
    by (auto simp: normalize_path_def split: option.splits)
  from p have plain: "list_all plain_char s"
    by (auto simp: url_pathname_def split: if_splits)
  from p assms(2) plain obtain r where "file_pathname r = Some p" "list_all plain_char r"
    by (auto simp: url_pathname_def scheme_split_rest_plain split: if_splits)
  from file_pathname_shape [OF this] obtain q where q: "p = CHR ''/'' # q"
    and pp: "list_all plain_char p" by blast
  have 1: "list_all plain_char t"
    unfolding t by (intro strip_trailing_all collapse_slashes_all pp)
  have 2: "\<not> has_double_slash t" unfolding t by (rule strip_no_double) (rule collapse_no_double)
  have 3: "\<not> ends_with_slash t" unfolding t by (rule strip_no_trailing)
  obtain q' where "collapse_slashes p = CHR ''/'' # q'"
    unfolding q using collapse_slashes_hd by blast
  then have 4: "t = [] \<or> (\<exists>q. t = CHR ''/'' # q)"
    unfolding t using strip_trailing_hd [of "CHR ''/''" q'] by simp
  have "url_pathname t = Some (if t = [] then ''/'' else t)"
    using 1 2 3 4 by (rule url_pathname_of_normalized)
  with 2 3 show ?thesis by (rule normalize_fixpoint)
qed

section \<open>The steps of a run\<close>

lemmas plugin_defs = issue_def console_write_def log_line_def report_def dispatch_def
  addListener_def downloadFile_def readFile_def writeFile_def deleteFile_def getUri_def
  readdir_def rmdir_def getServerBasePath_def setServerBasePath_def persistServerBasePath_def

text \<open>
  C8. When the platform is not native, or the scheme of the view's origin is not
  \<open>capacitor:\<close>, \<open>updateCapacitor\<close> throws and \<open>persistUpdates\<close> returns
  \<open>false\<close>, and neither touches the device: no plugin call is made, no listener is
  registered, no file changes; \<open>persistUpdates\<close> only writes its warning to the
  console.
\<close>

theorem gating_before_any_io:
  assumes "\<not> isNativePlatform pf \<or> location_protocol pf \<noteq> ''capacitor:''"
  shows "updateCapacitor pf url progressOrVerbose maybeVerbose uuid w
           = (Inl (if \<not> isNativePlatform pf then NotNative else LiveReload), w) \<and>
         persistUpdates pf w
           = (Inr False,
              w\<lparr>console := console w @
                   [(Warn, if \<not> isNativePlatform pf
                           then ''Update is only supported on native platforms''
                           else ''Update is not supported in Capacitor LiveReload'')]\<rparr>)"
  using assms by (auto simp: updateCapacitor_def persistUpdates_def console_write_def Let_def)

theorem gating_before_any_io_witness:
  "location_protocol live_reload \<noteq> ''capacitor:'' \<and>
   updateCapacitor live_reload ''https://x/u'' Function None ''u1'' at_rest
     = (Inl LiveReload, at_rest) \<and>
   fst (persistUpdates live_reload at_rest) = Inr False \<and>
   trace (snd (persistUpdates live_reload at_rest)) = trace at_rest \<and>
   listeners (snd (persistUpdates live_reload at_rest)) = listeners at_rest \<and>
   updatesRoot (snd (persistUpdates live_reload at_rest)) = updatesRoot at_rest"
proof -
  have h: "\<not> isNativePlatform live_reload \<or> location_protocol live_reload \<noteq> ''capacitor:''"
    by (simp add: live_reload_def device_def)
  show ?thesis
    using h gating_before_any_io [OF h, of "''https://x/u''" Function None "''u1''" at_rest]
    by (simp add: live_reload_def device_def)
qed

text \<open>
  C4. The value the progress listener reports for an event of the requested URL. With 50
  of 100 bytes downloaded it reports 1, where the fraction downloaded, halved, is 1/4; with
  the content length zero it reports 1/2, not 0. The listener divides the content length
  by the bytes downloaded, and guards the bytes downloaded, not the content length.
\<close>

theorem download_progress_inverted:
  "listener ''u'' True \<lparr>ps_url = ''u'', ps_bytes = 50, ps_contentLength = 100\<rparr> = Some 1 \<and>
   listener ''u'' True \<lparr>ps_url = ''u'', ps_bytes = 50, ps_contentLength = 0\<rparr> = Some (1 / 2)"
  by (simp add: listener_def)

lemma written_append: "written (xs @ ys) = written xs @ written ys"
  by (induction xs rule: written.induct) simp_all

lemma log_line_fields [simp]:
  "trace (log_line vb m w) = trace w" "progressed (log_line vb m w) = progressed w"
  "cacheFiles (log_line vb m w) = cacheFiles w" "libraryFiles (log_line vb m w) = libraryFiles w"
  "updatesRoot (log_line vb m w) = updatesRoot w" "serverBasePath (log_line vb m w) = serverBasePath w"
  "persistedPath (log_line vb m w) = persistedPath w" "listeners (log_line vb m w) = listeners w"
  by (simp_all add: log_line_def console_write_def)

lemma console_write_fields [simp]:
  "trace (console_write l m w) = trace w" "progressed (console_write l m w) = progressed w"
  "cacheFiles (console_write l m w) = cacheFiles w"
  "libraryFiles (console_write l m w) = libraryFiles w"
  "updatesRoot (console_write l m w) = updatesRoot w"
  "serverBasePath (console_write l m w) = serverBasePath w"
  "persistedPath (console_write l m w) = persistedPath w"
  "listeners (console_write l m w) = listeners w"
  "console (console_write l m w) = console w @ [(l, m)]"
  by (simp_all add: console_write_def)

lemma report_fields [simp]:
  "trace (report hp v w) = trace w"
  "progressed (report hp v w) = progressed w @ (if hp then [v] else [])"
  "cacheFiles (report hp v w) = cacheFiles w" "libraryFiles (report hp v w) = libraryFiles w"
  "updatesRoot (report hp v w) = updatesRoot w" "serverBasePath (report hp v w) = serverBasePath w"
  "persistedPath (report hp v w) = persistedPath w" "listeners (report hp v w) = listeners w"
  "console (report hp v w) = console w"
  by (simp_all add: report_def)

lemma issue_fields [simp]:
  "trace (issue c w) = trace w @ [c]" "progressed (issue c w) = progressed w"
  "cacheFiles (issue c w) = cacheFiles w" "libraryFiles (issue c w) = libraryFiles w"
  "updatesRoot (issue c w) = updatesRoot w" "serverBasePath (issue c w) = serverBasePath w"
  "persistedPath (issue c w) = persistedPath w" "listeners (issue c w) = listeners w"
  "console (issue c w) = console w"
  by (simp_all add: issue_def)

lemma dispatch_fields [simp]:
  "trace (dispatch events w) = trace w"
  "progressed (dispatch events w) = progressed w @
     concat (map (\<lambda>event. List.map_filter (\<lambda>handler. handler event) (listeners w)) events)"
  "cacheFiles (dispatch events w) = cacheFiles w" "libraryFiles (dispatch events w) = libraryFiles w"
  "updatesRoot (dispatch events w) = updatesRoot w"
  "serverBasePath (dispatch events w) = serverBasePath w"
  "persistedPath (dispatch events w) = persistedPath w" "listeners (dispatch events w) = listeners w"
  "console (dispatch events w) = console w"
  by (simp_all add: dispatch_def)

lemma writeFile_success:
  "writeFile pf path dir recursive data w = (Inr u, w') \<Longrightarrow>
   trace w' = trace w @ [WriteFile path dir recursive data] \<and> progressed w' = progressed w \<and>
   listeners w' = listeners w \<and> updatesRoot w' = updatesRoot w \<and>
   serverBasePath w' = serverBasePath w \<and> persistedPath w' = persistedPath w"
  by (auto simp: writeFile_def issue_def Let_def split: if_splits directory.splits)

lemma extract_entries_written:
  "extract_entries pf hp vb uuid n i files w = (Inr u, w') \<Longrightarrow>
   map asked (written (trace w'))
     = map asked (written (trace w)) @ map (entry_write uuid) (filter (\<lambda>e. \<not> ze_dir e) files)"
proof (induction files arbitrary: i w)
  case Nil
  then show ?case by simp
next
  case (Cons e files)
  show ?case
  proof (cases "ze_dir e")
    case True
    with Cons.prems have
      "extract_entries pf hp vb uuid n (i + 1) files
         (report hp (of_nat i / of_nat n / 2 + 1 / 2) w) = (Inr u, w')"
      by (simp add: Let_def)
    from Cons.IH [OF this] True show ?thesis by simp
  next
    case False
    with Cons.prems obtain data w2 where
      d: "ze_base64 e = Some data" and
      wr: \<open>writeFile pf (UPDATES_DIRECTORY @ ''/'' @ uuid @ ''/'' @ ze_name e) Library True data
             (log_line vb (''Writing ZIP entry "'' @ ze_name e @ ''"'')
                (report hp (of_nat i / of_nat n / 2 + 1 / 2) w)) = (Inr (), w2)\<close> and
      rest: "extract_entries pf hp vb uuid n (i + 1) files w2 = (Inr u, w')"
      by (auto simp: Let_def split: option.splits prod.splits sum.splits)
    from writeFile_success [OF wr] have "trace w2 = trace w @
        [WriteFile (UPDATES_DIRECTORY @ ''/'' @ uuid @ ''/'' @ ze_name e) Library True data]"
      by simp
    with Cons.IH [OF rest] False d show ?thesis
      by (simp add: written_append asked_def entry_write_def)
  qed
qed

lemma addListener_success:
  "addListener pf h w = (Inr u, w') \<Longrightarrow>
   w' = (issue AddListener w)\<lparr>listeners := listeners w @ [h]\<rparr>"
  by (auto simp: addListener_def split: if_splits)

lemma downloadFile_success:
  "downloadFile pf url path Cache True w = (Inr u, w') \<Longrightarrow>
   w' = (dispatch (progressEvents pf url) (issue (DownloadFile url path Cache True) w))
          \<lparr>cacheFiles := (cacheFiles w)(path \<mapsto> fetch pf url)\<rparr>"
  by (auto simp: downloadFile_def dispatch_def issue_def Let_def split: if_splits)

lemma readFile_success:
  "readFile pf path Cache w = (Inr data, w') \<Longrightarrow>
   cacheFiles w path = Some data \<and> w' = issue (ReadFile path Cache) w"
  by (auto simp: readFile_def split: if_splits option.splits)

lemma getUri_success:
  "getUri pf path dir w = (Inr uri, w') \<Longrightarrow>
   uri = uriOf pf dir path \<and> w' = issue (GetUri path dir) w"
  by (auto simp: getUri_def split: if_splits)

lemma update_body_success:
  assumes "update_body pf url hp vb uuid w = (Inr cb, w')"
  shows "\<exists>files w4 w5 path.
      loadAsync pf (fetch pf url) = Some files \<and>
      extract_entries pf hp vb uuid (length files) 0 files w4 = (Inr (), w5) \<and>
      normalize_path (pathname pf) (uriOf pf Library (UPDATES_DIRECTORY @ ''/'' @ uuid)) = Some path \<and>
      cb = activate pf vb path \<and>
      trace w4 = trace w @ [AddListener,
                            DownloadFile url (''update-'' @ uuid @ ''.zip'') Cache True,
                            ReadFile (''update-'' @ uuid @ ''.zip'') Cache] \<and>
      progressed w4 = progressed w @
        concat (map (\<lambda>event. List.map_filter (\<lambda>handler. handler event)
                               (listeners w @ [listener url hp]))
                    (progressEvents pf url)) \<and>
      trace w' = trace w5 @ [GetUri (UPDATES_DIRECTORY @ ''/'' @ uuid) Library] \<and>
      progressed w' = progressed w5 @ (if hp then [1] else []) \<and>
      cacheFiles w' = cacheFiles w5 \<and> listeners w' = listeners w5 \<and>
      updatesRoot w' = updatesRoot w5 \<and> serverBasePath w' = serverBasePath w5 \<and>
      persistedPath w' = persistedPath w5"
  using assms
  apply (simp add: update_body_def Let_def split: prod.splits sum.splits option.splits)
  apply (clarsimp dest!: addListener_success downloadFile_success readFile_success getUri_success)
  apply (cases hp)
   apply simp
   apply (intro exI conjI, assumption, simp_all)
  apply (intro exI conjI, assumption, simp_all)
  done

lemma deleteFile_cache:
  "deleteFile pf path Cache w =
     (if rejects pf (DeleteFile path Cache)
      then (Inl (Rejected (DeleteFile path Cache)), issue (DeleteFile path Cache) w)
      else (Inr (), (issue (DeleteFile path Cache) w)\<lparr>cacheFiles := (cacheFiles w)(path := None)\<rparr>))"
  by (simp add: deleteFile_def Let_def issue_def)

lemma updateCapacitor_success:
  assumes "updateCapacitor pf url pv mv uuid w = (Inr cb, w'')"
  shows "isNativePlatform pf \<and> location_protocol pf = ''capacitor:'' \<and>
         \<not> rejects pf (DeleteFile (''update-'' @ uuid @ ''.zip'') Cache) \<and>
         (\<exists>w'. update_body pf url (progress_given pv) (verbose_of pv mv) uuid w = (Inr cb, w') \<and>
               trace w'' = trace w' @ [DeleteFile (''update-'' @ uuid @ ''.zip'') Cache] \<and>
               progressed w'' = progressed w' \<and> listeners w'' = listeners w' \<and>
               updatesRoot w'' = updatesRoot w' \<and> serverBasePath w'' = serverBasePath w' \<and>
               persistedPath w'' = persistedPath w' \<and>
               cacheFiles w'' = (cacheFiles w')(''update-'' @ uuid @ ''.zip'' := None))"
  using assms
  by (cases "update_body pf url (progress_given pv) (verbose_of pv mv) uuid w")
     (auto simp: updateCapacitor_def try_finally_def deleteFile_cache Let_def split: if_splits)

text \<open>
  C6. When \<open>updateCapacitor\<close> succeeds, the files it asked the filesystem plugin to
  write are exactly the entries of the archive that are not directories, in the order of
  the archive, each at \<open>UPDATES_DIRECTORY/uuid/name\<close> of the library area, with
  \<open>recursive\<close> set, and with the BASE64 data the entry decodes to.
\<close>

theorem extraction_writes_file_entries:
  assumes "updateCapacitor pf url progressOrVerbose maybeVerbose uuid w = (Inr callback, w')"
  shows "\<exists>files. loadAsync pf (fetch pf url) = Some files \<and>
           map asked (written (trace w'))
             = map asked (written (trace w))
               @ map (entry_write uuid) (filter (\<lambda>e. \<not> ze_dir e) files)"
proof -
  from updateCapacitor_success [OF assms] obtain w1 where
    body: "update_body pf url (progress_given progressOrVerbose)
             (verbose_of progressOrVerbose maybeVerbose) uuid w = (Inr callback, w1)" and
    tr: "trace w' = trace w1 @ [DeleteFile (''update-'' @ uuid @ ''.zip'') Cache]"
    by blast
  from update_body_success [OF body] obtain files w4 w5 where
    files: "loadAsync pf (fetch pf url) = Some files" and
    ex: "extract_entries pf (progress_given progressOrVerbose)
           (verbose_of progressOrVerbose maybeVerbose) uuid (length files) 0 files w4 = (Inr (), w5)" and
    t4: "trace w4 = trace w @ [AddListener,
                            DownloadFile url (''update-'' @ uuid @ ''.zip'') Cache True,
                            ReadFile (''update-'' @ uuid @ ''.zip'') Cache]" and
    t1: "trace w1 = trace w5 @ [GetUri (UPDATES_DIRECTORY @ ''/'' @ uuid) Library]"
    by blast
  from extract_entries_written [OF ex] t4 t1 tr
  have "map asked (written (trace w'))
          = map asked (written (trace w))
            @ map (entry_write uuid) (filter (\<lambda>e. \<not> ze_dir e) files)"
    by (simp add: written_append)
  with files show ?thesis by blast
qed

lemma device_uri_u1:
  "normalize_path url_pathname ''file:///var/Library/NoCloud/ionic_built_snapshots/u1''
     = Some ''/var/Library/NoCloud/ionic_built_snapshots/u1''"
  by (simp add: url_eval)

lemmas body_defs = update_body_def plugin_defs device_def at_rest_def archive_def Let_def
  UPDATES_DIRECTORY_def device_uri_u1 listener_def

lemma device_body_progress:
  "progressed (snd (update_body device ''https://x/u'' True False ''u1'' at_rest))
     = [5, 1 / 2, 1 / 2, 2 / 3, 5 / 6, 1]"
  by (simp add: body_defs)

lemma updateCapacitor_after_checks:
  assumes "isNativePlatform pf" and "location_protocol pf = ''capacitor:''"
  shows "updateCapacitor pf url pv mv uuid w =
           try_finally (update_body pf url (progress_given pv) (verbose_of pv mv) uuid w)
             (\<lambda>w'. deleteFile pf (''update-'' @ uuid @ ''.zip'') Cache
                     (log_line (verbose_of pv mv)
                        (''Deleting ZIP file '' @ [CHR 0x22] @ ''update-'' @ uuid @ ''.zip'' @ [CHR 0x22]) w'))"
  using assms by (simp add: updateCapacitor_def Let_def)

lemma updateCapacitor_cleanup:
  assumes "isNativePlatform pf" and "location_protocol pf = ''capacitor:''"
  shows "trace (snd (updateCapacitor pf url pv mv uuid w))
           = trace (snd (update_body pf url (progress_given pv) (verbose_of pv mv) uuid w))
             @ [DeleteFile (''update-'' @ uuid @ ''.zip'') Cache]"
    and "progressed (snd (updateCapacitor pf url pv mv uuid w))
           = progressed (snd (update_body pf url (progress_given pv) (verbose_of pv mv) uuid w))"
    and "fst (updateCapacitor pf url pv mv uuid w)
           = (if rejects pf (DeleteFile (''update-'' @ uuid @ ''.zip'') Cache)
              then Inl (Rejected (DeleteFile (''update-'' @ uuid @ ''.zip'') Cache))
              else fst (update_body pf url (progress_given pv) (verbose_of pv mv) uuid w))"
    and "cacheFiles (snd (updateCapacitor pf url pv mv uuid w))
           = (if rejects pf (DeleteFile (''update-'' @ uuid @ ''.zip'') Cache)
              then cacheFiles (snd (update_body pf url (progress_given pv) (verbose_of pv mv) uuid w))
              else (cacheFiles (snd (update_body pf url (progress_given pv) (verbose_of pv mv) uuid w)))
                     (''update-'' @ uuid @ ''.zip'' := None))"
  by (simp_all add: updateCapacitor_after_checks [OF assms] try_finally_def deleteFile_cache)

lemma device_body:
  "fst (update_body device ''https://x/u'' True False ''u1'' at_rest)
     = Inr (activate device False ''/var/Library/NoCloud/ionic_built_snapshots/u1'')"
  "trace (snd (update_body device ''https://x/u'' True False ''u1'' at_rest))
     = [AddListener, DownloadFile ''https://x/u'' ''update-u1.zip'' Cache True,
        ReadFile ''update-u1.zip'' Cache,
        WriteFile ''NoCloud/ionic_built_snapshots/u1/index.html'' Library True ''PGh0bWw+'',
        WriteFile ''NoCloud/ionic_built_snapshots/u1/assets/app.js'' Library True ''YXBw'',
        GetUri ''NoCloud/ionic_built_snapshots/u1'' Library]"
  by (simp_all add: body_defs)

lemma device_facts:
  "isNativePlatform device" "location_protocol device = ''capacitor:''"
  "rejects device c = False" "pathname device = url_pathname"
  "fetch device url = ''UEsDBA''" "loadAsync device ''UEsDBA'' = Some archive"
  by (simp_all add: device_def)

lemma device_update:
  "updateCapacitor device ''https://x/u'' Function None ''u1'' at_rest
     = (Inr (activate device False ''/var/Library/NoCloud/ionic_built_snapshots/u1''),
        snd (updateCapacitor device ''https://x/u'' Function None ''u1'' at_rest))"
  by (simp add: prod_eq_iff updateCapacitor_cleanup device_facts device_body
        progress_given_def verbose_of_def)

theorem extraction_writes_file_entries_witness:
  "updateCapacitor device ''https://x/u'' Function None ''u1'' at_rest
     = (Inr (activate device False ''/var/Library/NoCloud/ionic_built_snapshots/u1''),
        snd (updateCapacitor device ''https://x/u'' Function None ''u1'' at_rest)) \<and>
   written (trace (snd (updateCapacitor device ''https://x/u'' Function None ''u1'' at_rest)))
     = [(''NoCloud/ionic_built_snapshots/u1/index.html'', Library, True, ''PGh0bWw+''),
        (''NoCloud/ionic_built_snapshots/u1/assets/app.js'', Library, True, ''YXBw'')]"
  using device_update extraction_writes_file_entries [OF device_update]
  by (simp add: updateCapacitor_cleanup device_facts device_body progress_given_def verbose_of_def)

text \<open>
  C1 (amended). Once the platform checks have passed, whatever the \<open>try\<close> block did
  and however it ended, the last plugin call of \<open>updateCapacitor\<close> is the deletion of
  the temporary archive \<open>update-uuid.zip\<close> of the cache area. When the deletion is not
  rejected, the archive is gone and the call ends as the block ended, with its function or
  its error; when the deletion is rejected, the call ends with the error of the deletion.
\<close>

theorem archive_deleted_on_every_exit:
  assumes "isNativePlatform pf" and "location_protocol pf = ''capacitor:''"
  shows "trace (snd (updateCapacitor pf url progressOrVerbose maybeVerbose uuid w))
           = trace (snd (update_body pf url (progress_given progressOrVerbose)
                           (verbose_of progressOrVerbose maybeVerbose) uuid w))
             @ [DeleteFile (''update-'' @ uuid @ ''.zip'') Cache] \<and>
         (if rejects pf (DeleteFile (''update-'' @ uuid @ ''.zip'') Cache)
          then fst (updateCapacitor pf url progressOrVerbose maybeVerbose uuid w)
                 = Inl (Rejected (DeleteFile (''update-'' @ uuid @ ''.zip'') Cache))
          else fst (updateCapacitor pf url progressOrVerbose maybeVerbose uuid w)
                 = fst (update_body pf url (progress_given progressOrVerbose)
                          (verbose_of progressOrVerbose maybeVerbose) uuid w) \<and>
               cacheFiles (snd (updateCapacitor pf url progressOrVerbose maybeVerbose uuid w))
                 (''update-'' @ uuid @ ''.zip'') = None)"
  by (simp add: updateCapacitor_cleanup [OF assms])

text \<open>
  A failed deletion does mask the original error: the download is rejected, then the
  deletion in the \<open>finally\<close> block is rejected, and the caller sees only the latter.
\<close>

theorem deletion_failure_masks_error:
  "fst (update_body failing_download ''https://x/u'' True False ''u1'' at_rest)
     = Inl (Rejected (DownloadFile ''https://x/u'' ''update-u1.zip'' Cache True)) \<and>
   fst (updateCapacitor failing_download ''https://x/u'' Function None ''u1'' at_rest)
     = Inl (Rejected (DeleteFile ''update-u1.zip'' Cache))"
proof -
  have g: "isNativePlatform failing_download" "location_protocol failing_download = ''capacitor:''"
    by (simp_all add: failing_download_def device_def)
  have "fst (update_body failing_download ''https://x/u'' True False ''u1'' at_rest)
     = Inl (Rejected (DownloadFile ''https://x/u'' ''update-u1.zip'' Cache True))"
    by (simp add: failing_download_def body_defs)
  moreover have "fst (updateCapacitor failing_download ''https://x/u'' Function None ''u1'' at_rest)
     = Inl (Rejected (DeleteFile ''update-u1.zip'' Cache))"
    by (simp add: updateCapacitor_cleanup [OF g]) (simp add: failing_download_def device_def)
  ultimately show ?thesis by simp
qed

theorem archive_deleted_on_every_exit_witness:
  "isNativePlatform device \<and> location_protocol device = ''capacitor:'' \<and>
   last (trace (snd (updateCapacitor device ''https://x/u'' Function None ''u1'' at_rest)))
     = DeleteFile ''update-u1.zip'' Cache \<and>
   cacheFiles (snd (updateCapacitor device ''https://x/u'' Function None ''u1'' at_rest))
     ''update-u1.zip'' = None \<and>
   fst (updateCapacitor device ''https://x/u'' Function None ''u1'' at_rest)
     = fst (update_body device ''https://x/u'' True False ''u1'' at_rest)"
  using archive_deleted_on_every_exit
          [OF device_facts(1,2), of "''https://x/u''" Function None "''u1''" at_rest]
  by (simp add: device_facts progress_given_def verbose_of_def)

text \<open>
  The progress values of the extraction: entry \<open>k\<close> of \<open>n\<close> is reported as
  \<open>k/n/2 + 1/2\<close> before it is written; these values do not decrease and stay between
  1/2 and 1. A successful run reports the values of the download, then those of the
  entries, then 1.
\<close>

lemma extract_entries_progress:
  "extract_entries pf True vb uuid n i files w = (Inr u, w') \<Longrightarrow>
   progressed w' = progressed w @ map (\<lambda>k. of_nat k / of_nat n / 2 + 1 / 2) [i..<i + length files]"
proof (induction files arbitrary: i w)
  case Nil
  then show ?case by simp
next
  case (Cons e files)
  have up: "[i..<i + length (e # files)] = i # [Suc i..<Suc i + length files]"
    by (simp add: upt_rec)
  show ?case
  proof (cases "ze_dir e")
    case True
    with Cons.prems have
      "extract_entries pf True vb uuid n (Suc i) files
         (report True (of_nat i / of_nat n / 2 + 1 / 2) w) = (Inr u, w')"
      by (simp add: Let_def)
    from Cons.IH [OF this] show ?thesis unfolding up by simp
  next
    case False
    with Cons.prems obtain data w1 w2 where
      w1: "progressed w1 = progressed w @ [of_nat i / of_nat n / 2 + 1 / 2]" and
      wr: "writeFile pf (UPDATES_DIRECTORY @ ''/'' @ uuid @ ''/'' @ ze_name e) Library True data w1
             = (Inr (), w2)" and
      rest: "extract_entries pf True vb uuid n (Suc i) files w2 = (Inr u, w')"
      by (auto simp: Let_def split: option.splits prod.splits sum.splits
               intro: that [rotated])
    from writeFile_success [OF wr] w1 Cons.IH [OF rest] show ?thesis unfolding up by simp
  qed
qed

lemma extraction_progress_bounds:
  assumes "k < n"
  shows "(1 / 2 :: rat) \<le> of_nat k / of_nat n / 2 + 1 / 2" and "of_nat k / of_nat n / 2 + 1 / 2 < (1 :: rat)"
    and "j \<le> k \<Longrightarrow> of_nat j / of_nat n / 2 + 1 / 2 \<le> (of_nat k / of_nat n / 2 + 1 / 2 :: rat)"
proof -
  from assms have n: "(0 :: rat) < of_nat n" by simp
  show "(1 / 2 :: rat) \<le> of_nat k / of_nat n / 2 + 1 / 2" by simp
  from assms n have "(of_nat k :: rat) / of_nat n < 1" by (simp add: divide_less_eq_1)
  then show "of_nat k / of_nat n / 2 + 1 / 2 < (1 :: rat)" by simp
  assume "j \<le> k"
  then have "(of_nat j :: rat) \<le> of_nat k" by simp
  with n have "(of_nat j :: rat) / of_nat n \<le> of_nat k / of_nat n" by (simp add: divide_right_mono)
  then show "of_nat j / of_nat n / 2 + 1 / 2 \<le> (of_nat k / of_nat n / 2 + 1 / 2 :: rat)" by simp
qed

lemma progress_of_successful_run:
  assumes "updateCapacitor pf url Function maybeVerbose uuid w = (Inr callback, w')"
  shows "\<exists>files. loadAsync pf (fetch pf url) = Some files \<and>
           progressed w' = progressed w
             @ concat (map (\<lambda>event. List.map_filter (\<lambda>handler. handler event)
                                    (listeners w @ [listener url True]))
                         (progressEvents pf url))
             @ map (\<lambda>k. of_nat k / of_nat (length files) / 2 + 1 / 2) [0..<length files]
             @ [1]"
proof -
  from updateCapacitor_success [OF assms] obtain w1 where
    body: "update_body pf url True (verbose_of Function maybeVerbose) uuid w = (Inr callback, w1)" and
    p: "progressed w' = progressed w1"
    by (auto simp: progress_given_def)
  from update_body_success [OF body] obtain files w4 w5 where
    files: "loadAsync pf (fetch pf url) = Some files" and
    ex: "extract_entries pf True (verbose_of Function maybeVerbose) uuid (length files) 0 files w4
           = (Inr (), w5)" and
    p4: "progressed w4 = progressed w @
        concat (map (\<lambda>event. List.map_filter (\<lambda>handler. handler event)
                               (listeners w @ [listener url True]))
                    (progressEvents pf url))" and
    p1: "progressed w1 = progressed w5 @ (if True then [1] else [])"
    by blast
  from extract_entries_progress [OF ex] p p1 p4 files show ?thesis by simp
qed

text \<open>
  C7. The values the progress callback receives in a successful run on the device: the
  download is reported as 5 (10 of 100 bytes) and 1/2 (100 of 100 bytes), then the three
  entries as 1/2, 2/3, 5/6, then 1. The sequence decreases, leaves the interval from 0 to
  1, and is not below 1/2 during the download.
\<close>

theorem progress_of_a_run:
  "progressed (snd (updateCapacitor device ''https://x/u'' Function None ''u1'' at_rest))
     = [5, 1 / 2, 1 / 2, 2 / 3, 5 / 6, 1]"
  by (simp add: updateCapacitor_cleanup device_facts device_body_progress progress_given_def
        verbose_of_def)

lemma activate_fields:
  "fst (activate pf vb path v)
     = (if rejects pf (SetServerBasePath path) then Inl (Rejected (SetServerBasePath path))
        else Inr ())"
  "serverBasePath (snd (activate pf vb path v))
     = (if rejects pf (SetServerBasePath path) then serverBasePath v else path)"
  "trace (snd (activate pf vb path v)) = trace v @ [SetServerBasePath path]"
  "cacheFiles (snd (activate pf vb path v)) = cacheFiles v"
  "libraryFiles (snd (activate pf vb path v)) = libraryFiles v"
  "updatesRoot (snd (activate pf vb path v)) = updatesRoot v"
  "persistedPath (snd (activate pf vb path v)) = persistedPath v"
  "listeners (snd (activate pf vb path v)) = listeners v"
  "progressed (snd (activate pf vb path v)) = progressed v"
  by (simp_all add: activate_def setServerBasePath_def)

lemma activate_repeated:
  "\<not> rejects pf (SetServerBasePath path) \<Longrightarrow>
   serverBasePath (((\<lambda>v. snd (activate pf vb path v)) ^^ Suc n) v) = path"
  by (simp add: activate_fields)

text \<open>
  C10. The function a successful \<open>updateCapacitor\<close> returns holds one path, the
  normalized URI of \<open>UPDATES_DIRECTORY/uuid\<close>. Whenever it is invoked, on any state of
  the device, it asks the web view to serve that path and changes nothing else (files,
  staged updates, persisted path, listeners, progress values); when the web view accepts,
  the served base path is that path after one invocation and after any number of them.
\<close>

theorem activation_sets_the_staged_path:
  assumes "updateCapacitor pf url progressOrVerbose maybeVerbose uuid w = (Inr callback, w')"
  shows "\<exists>path.
      normalize_path (pathname pf) (uriOf pf Library (UPDATES_DIRECTORY @ ''/'' @ uuid)) = Some path \<and>
      (\<forall>v. trace (snd (callback v)) = trace v @ [SetServerBasePath path] \<and>
           cacheFiles (snd (callback v)) = cacheFiles v \<and>
           libraryFiles (snd (callback v)) = libraryFiles v \<and>
           updatesRoot (snd (callback v)) = updatesRoot v \<and>
           persistedPath (snd (callback v)) = persistedPath v \<and>
           listeners (snd (callback v)) = listeners v \<and>
           progressed (snd (callback v)) = progressed v) \<and>
      (\<not> rejects pf (SetServerBasePath path) \<longrightarrow>
         (\<forall>v n. fst (callback v) = Inr () \<and>
                serverBasePath (((\<lambda>v. snd (callback v)) ^^ Suc n) v) = path))"
proof -
  from updateCapacitor_success [OF assms] obtain w1 where
    "update_body pf url (progress_given progressOrVerbose)
       (verbose_of progressOrVerbose maybeVerbose) uuid w = (Inr callback, w1)"
    by blast
  from update_body_success [OF this] obtain path where
    path: "normalize_path (pathname pf) (uriOf pf Library (UPDATES_DIRECTORY @ ''/'' @ uuid))
             = Some path" and
    cb: "callback = activate pf (verbose_of progressOrVerbose maybeVerbose) path"
    by blast
  have "\<forall>v. trace (snd (callback v)) = trace v @ [SetServerBasePath path] \<and>
           cacheFiles (snd (callback v)) = cacheFiles v \<and>
           libraryFiles (snd (callback v)) = libraryFiles v \<and>
           updatesRoot (snd (callback v)) = updatesRoot v \<and>
           persistedPath (snd (callback v)) = persistedPath v \<and>
           listeners (snd (callback v)) = listeners v \<and>
           progressed (snd (callback v)) = progressed v"
    unfolding cb by (simp add: activate_fields)
  moreover have "\<forall>v n. fst (callback v) = Inr () \<and>
                serverBasePath (((\<lambda>v. snd (callback v)) ^^ Suc n) v) = path"
    if "\<not> rejects pf (SetServerBasePath path)"
    unfolding cb using that activate_repeated [OF that] by (simp add: activate_fields)
  ultimately show ?thesis using path by blast
qed

theorem activation_sets_the_staged_path_witness:
  "updateCapacitor device ''https://x/u'' Function None ''u1'' at_rest
     = (Inr (activate device False ''/var/Library/NoCloud/ionic_built_snapshots/u1''),
        snd (updateCapacitor device ''https://x/u'' Function None ''u1'' at_rest)) \<and>
   \<not> rejects device (SetServerBasePath ''/var/Library/NoCloud/ionic_built_snapshots/u1'') \<and>
   serverBasePath
     (snd (activate device False ''/var/Library/NoCloud/ionic_built_snapshots/u1''
        (snd (activate device False ''/var/Library/NoCloud/ionic_built_snapshots/u1'' at_rest))))
     = ''/var/Library/NoCloud/ionic_built_snapshots/u1''"
  using device_update activation_sets_the_staged_path [OF device_update]
  by (simp add: device_facts activate_fields)

lemma rmdir_success:
  "rmdir pf (UPDATES_DIRECTORY @ ''/'' @ n) Library True w = (Inr u, w') \<Longrightarrow>
   updatesRoot w' = filter (\<lambda>f. fi_name f \<noteq> n) (updatesRoot w) \<and>
   trace w' = trace w @ [Rmdir (UPDATES_DIRECTORY @ ''/'' @ n) Library True] \<and>
   serverBasePath w' = serverBasePath w \<and> persistedPath w' = persistedPath w \<and>
   cacheFiles w' = cacheFiles w \<and> libraryFiles w' = libraryFiles w"
  by (auto simp: rmdir_def Let_def split: if_splits)

lemma durable_persists_append [simp]:
  "durable_persists (xs @ ys) = durable_persists xs + durable_persists ys"
  by (simp add: durable_persists_def)

lemma delete_old_success:
  "delete_old pf path files w = (Inr u, w') \<Longrightarrow>
   updatesRoot w'
     = filter (\<lambda>f. \<forall>g\<in>set files. old_update pf path g \<longrightarrow> fi_name g \<noteq> fi_name f) (updatesRoot w) \<and>
   (\<forall>g\<in>set files. fi_type g = TypeDirectory \<longrightarrow>
       normalize_path (pathname pf) path \<noteq> None \<and>
       normalize_path (pathname pf) (fi_uri g) \<noteq> None) \<and>
   durable_persists (trace w') = durable_persists (trace w) \<and>
   serverBasePath w' = serverBasePath w \<and> persistedPath w' = persistedPath w"
proof (induction files arbitrary: w)
  case Nil
  then show ?case by simp
next
  case (Cons g files)
  show ?case
  proof (cases "fi_type g = TypeDirectory")
    case False
    with Cons.prems have "delete_old pf path files w = (Inr u, w')" by simp
    from Cons.IH [OF this] False show ?thesis by (simp add: old_update_def)
  next
    case True
    with Cons.prems obtain p q where
      p: "normalize_path (pathname pf) path = Some p" and
      q: "normalize_path (pathname pf) (fi_uri g) = Some q"
      by (auto split: option.splits)
    show ?thesis
    proof (cases "p = q")
      case same: True
      with Cons.prems True p q have "delete_old pf path files w = (Inr u, w')" by simp
      from Cons.IH [OF this] True p q same show ?thesis
        by (simp add: old_update_def served_update_def)
    next
      case differ: False
      with Cons.prems True p q obtain w0 w1 where
        w0: "updatesRoot w0 = updatesRoot w" "trace w0 = trace w"
            "serverBasePath w0 = serverBasePath w" "persistedPath w0 = persistedPath w" and
        rm: "rmdir pf (UPDATES_DIRECTORY @ ''/'' @ fi_name g) Library True w0 = (Inr (), w1)" and
        rest: "delete_old pf path files w1 = (Inr u, w')"
        by (auto split: prod.splits sum.splits
                 intro: that [OF console_write_fields(5) console_write_fields(1)
                               console_write_fields(6) console_write_fields(7)])
      from rmdir_success [OF rm] w0 have
        w1: "updatesRoot w1 = filter (\<lambda>f. fi_name f \<noteq> fi_name g) (updatesRoot w)"
            "durable_persists (trace w1) = durable_persists (trace w)"
            "serverBasePath w1 = serverBasePath w" "persistedPath w1 = persistedPath w"
        by (simp_all add: durable_persists_def)
      have old: "old_update pf path g"
        using True p q differ by (simp add: old_update_def served_update_def)
      from Cons.IH [OF rest] w1 old True p q show ?thesis
        by (auto simp: filter_eq_iff intro!: filter_cong)
    qed
  qed
qed

lemma persistUpdates_returns:
  assumes "isNativePlatform pf" and "location_protocol pf = ''capacitor:''"
    and "persistUpdates pf w = (Inr b, w')"
    and "files = (if rejects pf (Readdir UPDATES_DIRECTORY Library) then [] else updatesRoot w)"
  shows "\<exists>pre.
      normalize_path (pathname pf) (uriOf pf Library UPDATES_DIRECTORY) = Some pre \<and>
      b = prefix pre (serverBasePath w) \<and>
      updatesRoot w'
        = filter (\<lambda>f. \<forall>g\<in>set files. old_update pf (serverBasePath w) g \<longrightarrow> fi_name g \<noteq> fi_name f)
            (updatesRoot w) \<and>
      (\<forall>g\<in>set files. fi_type g = TypeDirectory \<longrightarrow>
          normalize_path (pathname pf) (serverBasePath w) \<noteq> None \<and>
          normalize_path (pathname pf) (fi_uri g) \<noteq> None) \<and>
      durable_persists (trace w') = durable_persists (trace w) + (if b then 1 else 0) \<and>
      serverBasePath w' = serverBasePath w \<and>
      (b \<longrightarrow> persistedPath w' = Some (serverBasePath w))"
  using assms
  apply (simp add: persistUpdates_def readdir_def getUri_def getServerBasePath_def
           persistServerBasePath_def Let_def
         split: prod.splits sum.splits option.splits if_splits)
     apply (auto dest!: delete_old_success simp: durable_persists_def)
  done

lemma device_uris:
  "normalize_path url_pathname ''file:///var/Library/NoCloud/ionic_built_snapshots''
     = Some ''/var/Library/NoCloud/ionic_built_snapshots''"
  "normalize_path url_pathname ''file:///var/Library/NoCloud/ionic_built_snapshots/AAA''
     = Some ''/var/Library/NoCloud/ionic_built_snapshots/AAA''"
  "normalize_path url_pathname ''file:///var/Library/NoCloud/ionic_built_snapshots/BBB''
     = Some ''/var/Library/NoCloud/ionic_built_snapshots/BBB''"
  "normalize_path url_pathname ''/var/Library/NoCloud/ionic_built_snapshots/AAA''
     = Some ''/var/Library/NoCloud/ionic_built_snapshots/AAA''"
  "normalize_path url_pathname ''/var/Library//NoCloud/ionic_built_snapshots/AAA''
     = Some ''/var/Library/NoCloud/ionic_built_snapshots/AAA''"
  by (simp_all add: url_eval)

lemmas persist_defs = persistUpdates_def readdir_def rmdir_def getUri_def getServerBasePath_def
  persistServerBasePath_def issue_def console_write_def Let_def
  UPDATES_DIRECTORY_def device_def at_rest_def staged_def device_uris

text \<open>
  The run on the device: the web view serves \<open>AAA\<close>, the updates directory holds
  \<open>AAA\<close> and \<open>BBB\<close>; \<open>persistUpdates\<close> removes \<open>BBB\<close>, keeps \<open>AAA\<close>,
  persists the served base path and returns \<open>true\<close>.
\<close>

lemma device_persist: "fst (persistUpdates device at_rest) = Inr True"
  by (simp add: persist_defs)

lemma device_persist_root:
  "map fi_name (updatesRoot (snd (persistUpdates device at_rest))) = [''AAA'']"
  by (simp add: persist_defs)

lemma device_persist_trace:
  "trace (snd (persistUpdates device at_rest))
     = [GetUri ''NoCloud/ionic_built_snapshots'' Library, GetServerBasePath,
        Readdir ''NoCloud/ionic_built_snapshots'' Library,
        Rmdir ''NoCloud/ionic_built_snapshots/BBB'' Library True, PersistServerBasePath]"
  by (simp add: persist_defs)

lemma distinct_all_equal:
  assumes "distinct ys" and "\<forall>y\<in>set ys. y = c"
  shows "length ys \<le> 1"
proof (cases ys)
  case Nil
  then show ?thesis by simp
next
  case (Cons a as)
  with assms have "as = []" by (cases as) auto
  with Cons show ?thesis by simp
qed

lemma filter_old_updates:
  assumes "distinct (map fi_name xs)"
  shows "filter (\<lambda>f. \<forall>g\<in>set xs. old_update pf path g \<longrightarrow> fi_name g \<noteq> fi_name f) xs
           = filter (\<lambda>f. \<not> old_update pf path f) xs"
proof (rule filter_cong [OF refl])
  fix f assume f: "f \<in> set xs"
  from assms have inj: "inj_on fi_name (set xs)" by (simp add: distinct_map)
  show "(\<forall>g\<in>set xs. old_update pf path g \<longrightarrow> fi_name g \<noteq> fi_name f) = (\<not> old_update pf path f)"
  proof
    assume "\<forall>g\<in>set xs. old_update pf path g \<longrightarrow> fi_name g \<noteq> fi_name f"
    with f show "\<not> old_update pf path f" by blast
  next
    assume n: "\<not> old_update pf path f"
    show "\<forall>g\<in>set xs. old_update pf path g \<longrightarrow> fi_name g \<noteq> fi_name f"
    proof (intro ballI impI notI)
      fix g assume "g \<in> set xs" "old_update pf path g" "fi_name g = fi_name f"
      with inj f have "g = f" by (auto dest: inj_onD)
      with \<open>old_update pf path g\<close> n show False by simp
    qed
  qed
qed

text \<open>
  C2 (amended). On a native platform serving the packaged bundle, when the listing of
  the updates directory is not rejected and \<open>persistUpdates\<close> resolves to a boolean:
  the served base path is unchanged, and every child directory left in the updates
  directory is the served update (its URI and the served base path normalize to the same
  string); when the children have distinct names, the children left are exactly those that
  were not old updates (the old ones removed, the served one and the plain files kept);
  when the child directories have distinct normalized URIs, at most one directory is left.
\<close>

theorem persist_keeps_only_served_update:
  assumes "isNativePlatform pf" and "location_protocol pf = ''capacitor:''"
    and "\<not> rejects pf (Readdir UPDATES_DIRECTORY Library)"
    and "persistUpdates pf w = (Inr b, w')"
  shows "serverBasePath w' = serverBasePath w \<and>
         (\<forall>f\<in>set (updatesRoot w'). fi_type f = TypeDirectory \<longrightarrow>
              served_update pf (serverBasePath w) f) \<and>
         (distinct (map fi_name (updatesRoot w)) \<longrightarrow>
            updatesRoot w' = filter (\<lambda>f. \<not> old_update pf (serverBasePath w) f) (updatesRoot w)) \<and>
         (distinct (map (\<lambda>f. normalize_path (pathname pf) (fi_uri f))
                      (filter (\<lambda>f. fi_type f = TypeDirectory) (updatesRoot w))) \<longrightarrow>
            length (filter (\<lambda>f. fi_type f = TypeDirectory) (updatesRoot w')) \<le> 1)"
proof -
  let ?keep = "\<lambda>f. \<forall>g\<in>set (updatesRoot w).
                  old_update pf (serverBasePath w) g \<longrightarrow> fi_name g \<noteq> fi_name f"
  let ?dir = "\<lambda>f. fi_type f = TypeDirectory"
  let ?nz = "\<lambda>f. normalize_path (pathname pf) (fi_uri f)"
  from persistUpdates_returns [OF assms(1,2,4) refl] assms(3) have
    root: "updatesRoot w' = filter ?keep (updatesRoot w)" and
    path: "serverBasePath w' = serverBasePath w"
    by auto
  have served: "served_update pf (serverBasePath w) f"
    if "f \<in> set (updatesRoot w')" "?dir f" for f
  proof -
    from that root have "f \<in> set (updatesRoot w)" "?keep f" by auto
    then have "\<not> old_update pf (serverBasePath w) f" by blast
    with that show ?thesis by (simp add: old_update_def)
  qed
  have exact: "updatesRoot w' = filter (\<lambda>f. \<not> old_update pf (serverBasePath w) f) (updatesRoot w)"
    if "distinct (map fi_name (updatesRoot w))"
    using root filter_old_updates [OF that] by simp
  have one: "length (filter ?dir (updatesRoot w')) \<le> 1"
    if d: "distinct (map ?nz (filter ?dir (updatesRoot w)))"
  proof -
    have eq: "filter ?dir (updatesRoot w') = filter ?keep (filter ?dir (updatesRoot w))"
      unfolding root by (simp add: conj_commute)
    have "distinct (map ?nz (filter ?keep (filter ?dir (updatesRoot w))))"
      using d by (rule distinct_map_filter)
    then have "distinct (map ?nz (filter ?dir (updatesRoot w')))"
      unfolding eq .
    moreover have "\<forall>y\<in>set (map ?nz (filter ?dir (updatesRoot w'))).
                     y = normalize_path (pathname pf) (serverBasePath w)"
      using served by (auto simp: served_update_def)
    ultimately have "length (map ?nz (filter ?dir (updatesRoot w'))) \<le> 1"
      by (rule distinct_all_equal)
    then show ?thesis by simp
  qed
  from path served exact one show ?thesis by blast
qed

lemma device_persist_run:
  "persistUpdates device at_rest = (Inr True, snd (persistUpdates device at_rest))"
  by (simp add: prod_eq_iff device_persist)

lemma at_rest_fields:
  "updatesRoot at_rest = [staged ''AAA'', staged ''BBB'']"
  "serverBasePath at_rest = ''/var/Library/NoCloud/ionic_built_snapshots/AAA''"
  "trace at_rest = []"
  by (simp_all add: at_rest_def)

lemma staged_fields:
  "fi_name (staged n) = n" "fi_type (staged n) = TypeDirectory"
  "fi_uri (staged n) = ''file:///var/Library/NoCloud/ionic_built_snapshots/'' @ n"
  by (simp_all add: staged_def)

theorem persist_keeps_only_served_update_witness:
  "isNativePlatform device \<and> location_protocol device = ''capacitor:'' \<and>
   \<not> rejects device (Readdir UPDATES_DIRECTORY Library) \<and>
   persistUpdates device at_rest = (Inr True, snd (persistUpdates device at_rest)) \<and>
   distinct (map fi_name (updatesRoot at_rest)) \<and>
   distinct (map (\<lambda>f. normalize_path (pathname device) (fi_uri f))
              (filter (\<lambda>f. fi_type f = TypeDirectory) (updatesRoot at_rest))) \<and>
   updatesRoot (snd (persistUpdates device at_rest)) = [staged ''AAA''] \<and>
   served_update device (serverBasePath at_rest) (staged ''AAA'') \<and>
   length (filter (\<lambda>f. fi_type f = TypeDirectory) (updatesRoot (snd (persistUpdates device at_rest))))
     \<le> 1"
proof -
  have r: "\<not> rejects device (Readdir UPDATES_DIRECTORY Library)"
    by (simp add: device_facts)
  have n: "distinct (map fi_name (updatesRoot at_rest))"
    by (simp add: at_rest_fields staged_fields)
  have u: "distinct (map (\<lambda>f. normalize_path (pathname device) (fi_uri f))
              (filter (\<lambda>f. fi_type f = TypeDirectory) (updatesRoot at_rest)))"
    by (simp add: at_rest_fields staged_fields device_facts device_uris)
  have o: "\<not> old_update device (serverBasePath at_rest) (staged ''AAA'')"
          "old_update device (serverBasePath at_rest) (staged ''BBB'')"
          "served_update device (serverBasePath at_rest) (staged ''AAA'')"
    by (simp_all add: old_update_def served_update_def at_rest_fields staged_fields
          device_facts device_uris)
  show ?thesis
    using r n u o device_persist_run
      persist_keeps_only_served_update [OF device_facts(1,2) r device_persist_run]
    by (simp add: device_facts at_rest_fields)
qed

lemma live_reload_protocol: "location_protocol live_reload \<noteq> ''capacitor:''"
  by (simp add: live_reload_def device_def)

text \<open>
  The updates directory can hold several directories after \<open>persistUpdates\<close>
  completes: under live reload it returns \<open>false\<close> at once, and when the listing is
  rejected it takes the listing as empty; both leave \<open>AAA\<close> and \<open>BBB\<close> in place.
\<close>

theorem persist_leaves_several_updates:
  "fst (persistUpdates live_reload at_rest) = Inr False \<and>
   map fi_name (filter (\<lambda>f. fi_type f = TypeDirectory)
                  (updatesRoot (snd (persistUpdates live_reload at_rest)))) = [''AAA'', ''BBB''] \<and>
   fst (persistUpdates (rejecting (Readdir UPDATES_DIRECTORY Library)) at_rest) = Inr True \<and>
   map fi_name (filter (\<lambda>f. fi_type f = TypeDirectory)
                  (updatesRoot (snd (persistUpdates (rejecting (Readdir UPDATES_DIRECTORY Library)) at_rest)))) = [''AAA'', ''BBB'']"
proof -
  have "fst (persistUpdates live_reload at_rest) = Inr False"
       "map fi_name (filter (\<lambda>f. fi_type f = TypeDirectory)
                  (updatesRoot (snd (persistUpdates live_reload at_rest)))) = [''AAA'', ''BBB'']"
    by (simp_all add: persistUpdates_def live_reload_protocol at_rest_fields staged_fields)
  moreover have "fst (persistUpdates (rejecting (Readdir UPDATES_DIRECTORY Library)) at_rest) = Inr True"
       "map fi_name (filter (\<lambda>f. fi_type f = TypeDirectory)
                  (updatesRoot (snd (persistUpdates (rejecting (Readdir UPDATES_DIRECTORY Library)) at_rest)))) = [''AAA'', ''BBB'']"
    by (simp_all add: rejecting_def persist_defs)
  ultimately show ?thesis by simp
qed

text \<open>
  C5 (amended). On a native platform serving the packaged bundle, when
  \<open>persistUpdates\<close> resolves to a boolean and the served base path is in normalized form
  (\<open>normalize\<close> gives it back), the boolean is true exactly when the normalized served
  base path starts with the normalized updates root; the durable persist is invoked once
  when it is true and not at all when it is false.
\<close>

theorem persist_iff_served_from_updates:
  assumes "isNativePlatform pf" and "location_protocol pf = ''capacitor:''"
    and "persistUpdates pf w = (Inr b, w')"
    and "normalize_path (pathname pf) (serverBasePath w) = Some (serverBasePath w)"
  shows "\<exists>pre p.
      normalize_path (pathname pf) (uriOf pf Library UPDATES_DIRECTORY) = Some pre \<and>
      normalize_path (pathname pf) (serverBasePath w) = Some p \<and>
      b = prefix pre p \<and>
      durable_persists (trace w') = durable_persists (trace w) + (if b then 1 else 0)"
  using persistUpdates_returns [OF assms(1,2,3) refl] assms(4) by auto

theorem persist_iff_served_from_updates_witness:
  "isNativePlatform device \<and> location_protocol device = ''capacitor:'' \<and>
   persistUpdates device at_rest = (Inr True, snd (persistUpdates device at_rest)) \<and>
   normalize_path (pathname device) (serverBasePath at_rest) = Some (serverBasePath at_rest) \<and>
   normalize_path (pathname device) (uriOf device Library UPDATES_DIRECTORY)
     = Some ''/var/Library/NoCloud/ionic_built_snapshots'' \<and>
   prefix ''/var/Library/NoCloud/ionic_built_snapshots'' (serverBasePath at_rest) \<and>
   durable_persists (trace (snd (persistUpdates device at_rest))) = 1"
proof -
  have n: "normalize_path (pathname device) (serverBasePath at_rest) = Some (serverBasePath at_rest)"
    by (simp add: device_facts at_rest_fields device_uris)
  have u: "normalize_path (pathname device) (uriOf device Library UPDATES_DIRECTORY)
     = Some ''/var/Library/NoCloud/ionic_built_snapshots''"
    by (simp add: device_def UPDATES_DIRECTORY_def device_uris)
  show ?thesis
    using n u device_persist_run
      persist_iff_served_from_updates [OF device_facts(1,2) device_persist_run n]
    by (simp add: device_facts at_rest_fields durable_persists_def)
qed

text \<open>
  \<open>persistUpdates\<close> returns \<open>false\<close> although the normalized served base path
  starts with the normalized updates root: under live reload, and when the served base
  path is not in normalized form (the test \<open>path.startsWith\<close> takes the path as the
  web view gives it).
\<close>

theorem persist_refused_for_update_path:
  "normalize_path (pathname live_reload) (uriOf live_reload Library UPDATES_DIRECTORY)
     = Some ''/var/Library/NoCloud/ionic_built_snapshots'' \<and>
   normalize_path (pathname live_reload) (serverBasePath at_rest)
     = Some ''/var/Library/NoCloud/ionic_built_snapshots/AAA'' \<and>
   prefix ''/var/Library/NoCloud/ionic_built_snapshots''
     ''/var/Library/NoCloud/ionic_built_snapshots/AAA'' \<and>
   fst (persistUpdates live_reload at_rest) = Inr False \<and>
   normalize_path (pathname device) (uriOf device Library UPDATES_DIRECTORY)
     = Some ''/var/Library/NoCloud/ionic_built_snapshots'' \<and>
   normalize_path (pathname device) (serverBasePath served_unnormalized)
     = Some ''/var/Library/NoCloud/ionic_built_snapshots/AAA'' \<and>
   fst (persistUpdates device served_unnormalized) = Inr False \<and>
   durable_persists (trace (snd (persistUpdates device served_unnormalized))) = 0"
proof -
  have "normalize_path (pathname live_reload) (uriOf live_reload Library UPDATES_DIRECTORY)
     = Some ''/var/Library/NoCloud/ionic_built_snapshots''"
    "normalize_path (pathname live_reload) (serverBasePath at_rest)
     = Some ''/var/Library/NoCloud/ionic_built_snapshots/AAA''"
    "normalize_path (pathname device) (uriOf device Library UPDATES_DIRECTORY)
     = Some ''/var/Library/NoCloud/ionic_built_snapshots''"
    "normalize_path (pathname device) (serverBasePath served_unnormalized)
     = Some ''/var/Library/NoCloud/ionic_built_snapshots/AAA''"
    by (simp_all add: live_reload_def served_unnormalized_def device_def at_rest_def
          UPDATES_DIRECTORY_def device_uris)
  moreover have "fst (persistUpdates live_reload at_rest) = Inr False"
    by (simp add: persistUpdates_def live_reload_protocol)
  moreover have "fst (persistUpdates device served_unnormalized) = Inr False"
    "durable_persists (trace (snd (persistUpdates device served_unnormalized))) = 0"
    by (simp_all add: served_unnormalized_def persist_defs durable_persists_def)
  ultimately show ?thesis by simp
qed

lemma delete_old_rejected:
  assumes "g \<in> set files" and "old_update pf path g"
    and "rejects pf (Rmdir (UPDATES_DIRECTORY @ ''/'' @ fi_name g) Library True)"
  shows "\<exists>e. fst (delete_old pf path files w) = Inl e"
  using assms(1)
proof (induction files arbitrary: w)
  case Nil
  then show ?case by simp
next
  case (Cons f files)
  show ?case
  proof (cases "g = f")
    case True
    with assms(2,3) show ?thesis
      by (auto simp: old_update_def served_update_def rmdir_def Let_def split: option.splits)
  next
    case False
    with Cons.prems have "g \<in> set files" by simp
    from Cons.IH [OF this] show ?thesis
      by (auto simp: split: option.splits prod.splits sum.splits)
  qed
qed

text \<open>
  C3 (amended). On a native platform serving the packaged bundle, a rejected listing of
  the updates directory is caught: it is logged on the console as an error and taken as an
  empty listing, nothing is removed, and \<open>persistUpdates\<close> resolves to a boolean when
  its other calls succeed. The other errors reach the caller: a rejected URI resolution, a
  rejected read of the served base path, a rejected removal of an old update, a rejected
  durable persist each make \<open>persistUpdates\<close> fail.
\<close>

theorem persist_catches_listing_failure_only:
  assumes "isNativePlatform pf" and "location_protocol pf = ''capacitor:''"
  shows \<open>(rejects pf (Readdir UPDATES_DIRECTORY Library) \<and>
          \<not> rejects pf (GetUri UPDATES_DIRECTORY Library) \<and>
          normalize_path (pathname pf) (uriOf pf Library UPDATES_DIRECTORY) = Some pre \<and>
          \<not> rejects pf GetServerBasePath \<and> \<not> rejects pf PersistServerBasePath \<longrightarrow>
            fst (persistUpdates pf w) = Inr (prefix pre (serverBasePath w)) \<and>
            updatesRoot (snd (persistUpdates pf w)) = updatesRoot w \<and>
            (Err, ''Failed to read updates directory "'' @ UPDATES_DIRECTORY @ ''"'')
              \<in> set (console (snd (persistUpdates pf w)))) \<and>
         (rejects pf (GetUri UPDATES_DIRECTORY Library) \<longrightarrow>
            fst (persistUpdates pf w) = Inl (Rejected (GetUri UPDATES_DIRECTORY Library))) \<and>
         (\<not> rejects pf (GetUri UPDATES_DIRECTORY Library) \<and>
          normalize_path (pathname pf) (uriOf pf Library UPDATES_DIRECTORY) = Some pre \<and>
          rejects pf GetServerBasePath \<longrightarrow>
            fst (persistUpdates pf w) = Inl (Rejected GetServerBasePath)) \<and>
         (\<not> rejects pf (Readdir UPDATES_DIRECTORY Library) \<and> g \<in> set (updatesRoot w) \<and>
          old_update pf (serverBasePath w) g \<and>
          rejects pf (Rmdir (UPDATES_DIRECTORY @ ''/'' @ fi_name g) Library True) \<longrightarrow>
            (\<exists>e. fst (persistUpdates pf w) = Inl e)) \<and>
         (rejects pf PersistServerBasePath \<and>
          normalize_path (pathname pf) (uriOf pf Library UPDATES_DIRECTORY) = Some pre \<and>
          prefix pre (serverBasePath w) \<longrightarrow>
            (\<exists>e. fst (persistUpdates pf w) = Inl e))\<close>
proof (intro conjI impI)
  assume "rejects pf (Readdir UPDATES_DIRECTORY Library) \<and>
          \<not> rejects pf (GetUri UPDATES_DIRECTORY Library) \<and>
          normalize_path (pathname pf) (uriOf pf Library UPDATES_DIRECTORY) = Some pre \<and>
          \<not> rejects pf GetServerBasePath \<and> \<not> rejects pf PersistServerBasePath"
  with assms show "fst (persistUpdates pf w) = Inr (prefix pre (serverBasePath w))"
    and "updatesRoot (snd (persistUpdates pf w)) = updatesRoot w"
    and \<open>(Err, ''Failed to read updates directory "'' @ UPDATES_DIRECTORY @ ''"'')
              \<in> set (console (snd (persistUpdates pf w)))\<close>
    by (simp_all add: persistUpdates_def readdir_def getUri_def getServerBasePath_def
          persistServerBasePath_def Let_def)
next
  assume "rejects pf (GetUri UPDATES_DIRECTORY Library)"
  with assms show "fst (persistUpdates pf w) = Inl (Rejected (GetUri UPDATES_DIRECTORY Library))"
    by (simp add: persistUpdates_def getUri_def)
next
  assume "\<not> rejects pf (GetUri UPDATES_DIRECTORY Library) \<and>
          normalize_path (pathname pf) (uriOf pf Library UPDATES_DIRECTORY) = Some pre \<and>
          rejects pf GetServerBasePath"
  with assms show "fst (persistUpdates pf w) = Inl (Rejected GetServerBasePath)"
    by (simp add: persistUpdates_def getUri_def getServerBasePath_def)
next
  assume a: "\<not> rejects pf (Readdir UPDATES_DIRECTORY Library) \<and> g \<in> set (updatesRoot w) \<and>
          old_update pf (serverBasePath w) g \<and>
          rejects pf (Rmdir (UPDATES_DIRECTORY @ ''/'' @ fi_name g) Library True)"
  then have "\<exists>e. fst (delete_old pf (serverBasePath w) (updatesRoot w) v) = Inl e" for v
    using delete_old_rejected by blast
  then have "delete_old pf (serverBasePath w) (updatesRoot w) v \<noteq> (Inr u, v')" for v u v'
    by (metis fst_conv sum.distinct(1))
  with assms a show "\<exists>e. fst (persistUpdates pf w) = Inl e"
    by (auto simp: persistUpdates_def readdir_def getUri_def getServerBasePath_def Let_def
             split: prod.splits sum.splits option.splits)
next
  assume "rejects pf PersistServerBasePath \<and>
          normalize_path (pathname pf) (uriOf pf Library UPDATES_DIRECTORY) = Some pre \<and>
          prefix pre (serverBasePath w)"
  with assms show "\<exists>e. fst (persistUpdates pf w) = Inl e"
    by (auto simp: persistUpdates_def readdir_def getUri_def getServerBasePath_def
               persistServerBasePath_def Let_def
             split: prod.splits sum.splits option.splits)
qed

lemma rejecting_fields:
  "isNativePlatform (rejecting c)" "location_protocol (rejecting c) = ''capacitor:''"
  "rejects (rejecting c) x = (x = c)" "pathname (rejecting c) = url_pathname"
  "uriOf (rejecting c) Library UPDATES_DIRECTORY = ''file:///var/Library/NoCloud/ionic_built_snapshots''"
  by (simp_all add: rejecting_def device_def UPDATES_DIRECTORY_def)

theorem persist_catches_listing_failure_only_witness:
  \<open>isNativePlatform (rejecting (Readdir UPDATES_DIRECTORY Library)) \<and>
   location_protocol (rejecting (Readdir UPDATES_DIRECTORY Library)) = ''capacitor:'' \<and>
   rejects (rejecting (Readdir UPDATES_DIRECTORY Library)) (Readdir UPDATES_DIRECTORY Library) \<and>
   \<not> rejects (rejecting (Readdir UPDATES_DIRECTORY Library)) (GetUri UPDATES_DIRECTORY Library) \<and>
   normalize_path (pathname (rejecting (Readdir UPDATES_DIRECTORY Library)))
     (uriOf (rejecting (Readdir UPDATES_DIRECTORY Library)) Library UPDATES_DIRECTORY)
     = Some ''/var/Library/NoCloud/ionic_built_snapshots'' \<and>
   \<not> rejects (rejecting (Readdir UPDATES_DIRECTORY Library)) GetServerBasePath \<and>
   \<not> rejects (rejecting (Readdir UPDATES_DIRECTORY Library)) PersistServerBasePath \<and>
   fst (persistUpdates (rejecting (Readdir UPDATES_DIRECTORY Library)) at_rest) = Inr True \<and>
   updatesRoot (snd (persistUpdates (rejecting (Readdir UPDATES_DIRECTORY Library)) at_rest))
     = [staged ''AAA'', staged ''BBB''] \<and>
   (Err, ''Failed to read updates directory "NoCloud/ionic_built_snapshots"'')
     \<in> set (console (snd (persistUpdates (rejecting (Readdir UPDATES_DIRECTORY Library)) at_rest))) \<and>
   staged ''BBB'' \<in> set (updatesRoot at_rest) \<and>
   old_update (rejecting (Rmdir (UPDATES_DIRECTORY @ ''/'' @ ''BBB'') Library True))
     (serverBasePath at_rest) (staged ''BBB'') \<and>
   fst (persistUpdates (rejecting (Rmdir (UPDATES_DIRECTORY @ ''/'' @ ''BBB'') Library True)) at_rest)
     = Inl (Rejected (Rmdir ''NoCloud/ionic_built_snapshots/BBB'' Library True))\<close>
proof -
  let ?l = "rejecting (Readdir UPDATES_DIRECTORY Library)"
  let ?r = "rejecting (Rmdir (UPDATES_DIRECTORY @ ''/'' @ ''BBB'') Library True)"
  have n: "normalize_path (pathname ?l) (uriOf ?l Library UPDATES_DIRECTORY)
             = Some ''/var/Library/NoCloud/ionic_built_snapshots''"
    by (simp add: rejecting_fields device_uris)
  have p: "prefix ''/var/Library/NoCloud/ionic_built_snapshots'' (serverBasePath at_rest)"
    by (simp add: at_rest_fields)
  have o: "old_update ?r (serverBasePath at_rest) (staged ''BBB'')"
    by (simp add: old_update_def served_update_def rejecting_fields at_rest_fields staged_fields
          device_uris)
  have e: "fst (persistUpdates ?r at_rest)
     = Inl (Rejected (Rmdir ''NoCloud/ionic_built_snapshots/BBB'' Library True))"
    by (simp add: rejecting_def persist_defs)
  show ?thesis
    using n p o e
      persist_catches_listing_failure_only [OF rejecting_fields(1,2),
        of "Readdir UPDATES_DIRECTORY Library" "''/var/Library/NoCloud/ionic_built_snapshots''"
           at_rest "staged ''BBB''"]
    by (simp add: rejecting_fields at_rest_fields UPDATES_DIRECTORY_def)
qed

text \<open>
  An error does propagate to the caller: the removal of the old update \<open>BBB\<close> is
  rejected, and \<open>persistUpdates\<close> rejects with that error.
\<close>

theorem persist_propagates_rmdir_failure:
  "fst (persistUpdates (rejecting (Rmdir ''NoCloud/ionic_built_snapshots/BBB'' Library True)) at_rest)
     = Inl (Rejected (Rmdir ''NoCloud/ionic_built_snapshots/BBB'' Library True))"
  by (simp add: rejecting_def persist_defs)

end
